theory Spec2Isabelle
  imports Complex_Main "HOL-Library.Product_Lexorder" "HOL-Library.Multiset"
begin

section \<open>Data model\<close>

text \<open>
  The handlers read and write untyped JSON documents (Python dicts) held in one search
  index. A document is a record of optional fields: \<open>None\<close> is a key that is absent, so
  that every \<^verbatim>\<open>doc.get(k, default)\<close> and every \<^verbatim>\<open>doc[k]\<close> (which raises
  KeyError on an absent key) of the source is a case distinction of the model.
  A number is a Python float, that is an IEEE 754 double, and is modelled by the real
  number it denotes; infinities and NaN are left out.
\<close>

datatype loc = Loc_list "real list" | Loc_dict "(string \<times> real) list"

record doc =
  doc_name :: "string option"
  doc_gender :: "string option"
  doc_status :: "string option"
  doc_following :: "int list option"
  doc_location :: "loc option"
  doc_x :: "real option"
  doc_y :: "real option"
  doc_hobbies :: "string list option"
  doc_interested_in :: "string option"

text \<open>models.py: the enumerations and the response model.\<close>

datatype Gender = male | female

datatype Status = married | single

record Location =
  lon :: real
  lat :: real

record User =
  user_id :: "int option"
  user_name :: string
  user_gender :: Gender
  user_status :: Status
  user_following :: "int list"
  user_location :: Location

text \<open>
  Exceptions are values. \<open>Str e\<close> stands for Python's \<^verbatim>\<open>str(e)\<close>, which the
  catch-all clause of every handler puts into the detail of the exception it raises;
  the text itself is computed by the libraries and is kept symbolic.
\<close>

datatype exn =
    HTTPException nat detail
  | NotFoundError
  | KeyError string
  | IndexError
  | ValidationError
  | ValueError
  | OverflowError
and detail = Msg string | Str exn

section \<open>The index\<close>

text \<open>
  The index keeps its documents in some order of its own, which is the order in which an
  unsorted search returns them: an association list. Every call made on the client is
  appended to a log, so that a statement on which calls a handler issues is a statement
  on the log. Document ids are the decimal strings of integers in the source; the
  model keys documents by the integer.
\<close>

datatype call =
    Exists int
  | Get int
  | Update int "int list"
  | Search int
  | Search_sorted int "string list" real real

record es =
  docs :: "(int \<times> doc) list"
  calls :: "call list"

definition es_exists :: "int \<Rightarrow> es \<Rightarrow> bool \<times> es" where
  "es_exists i s = (map_of (docs s) i \<noteq> None, s\<lparr>calls := calls s @ [Exists i]\<rparr>)"

definition es_get :: "int \<Rightarrow> es \<Rightarrow> (exn + doc) \<times> es" where
  "es_get i s =
     (case map_of (docs s) i of
        None \<Rightarrow> (Inl NotFoundError, s\<lparr>calls := calls s @ [Get i]\<rparr>)
      | Some d \<Rightarrow> (Inr d, s\<lparr>calls := calls s @ [Get i]\<rparr>))"

text \<open>
  \<^verbatim>\<open>es.update(index, id, body={"doc": {"following": fs}})\<close>: a partial update of
  the one field.
\<close>

definition set_following :: "int \<Rightarrow> int list \<Rightarrow> (int \<times> doc) list \<Rightarrow> (int \<times> doc) list" where
  "set_following i fs ds =
     map (\<lambda>(k, d). if k = i then (k, d\<lparr>doc_following := Some fs\<rparr>) else (k, d)) ds"

definition es_update :: "int \<Rightarrow> int list \<Rightarrow> es \<Rightarrow> (exn + unit) \<times> es" where
  "es_update i fs s =
     (case map_of (docs s) i of
        None \<Rightarrow> (Inl NotFoundError, s\<lparr>calls := calls s @ [Update i fs]\<rparr>)
      | Some d \<Rightarrow>
          (Inr (), s\<lparr>docs := set_following i fs (docs s), calls := calls s @ [Update i fs]\<rparr>))"

section \<open>routes/follow.py\<close>

text \<open>
  Every handler is a \<^verbatim>\<open>try\<close> block with two \<^verbatim>\<open>except\<close> clauses:
  \<^verbatim>\<open>except NotFoundError\<close> raises HTTPException(404, "User not found"), and
  \<^verbatim>\<open>except Exception as e\<close> raises HTTPException(500, str(e)). HTTPException is
  itself a subclass of Exception, so an HTTPException raised inside the \<^verbatim>\<open>try\<close>
  block is caught by the second clause.
\<close>

fun handle :: "(exn + 'a) \<times> es \<Rightarrow> (exn + 'a) \<times> es" where
  "handle (Inr v, s) = (Inr v, s)"
| "handle (Inl NotFoundError, s) = (Inl (HTTPException 404 (Msg ''User not found'')), s)"
| "handle (Inl e, s) = (Inl (HTTPException 500 (Str e)), s)"

definition get_following :: "doc \<Rightarrow> int list" where
  "get_following d = (case doc_following d of None \<Rightarrow> [] | Some fs \<Rightarrow> fs)"

text \<open>The body of the \<^verbatim>\<open>try\<close> block of \<^verbatim>\<open>add_follow\<close>.\<close>

definition add_follow_try :: "int \<Rightarrow> int \<Rightarrow> es \<Rightarrow> (exn + int \<times> int list) \<times> es" where
  "add_follow_try i follow_id s =
     (case es_exists i s of (e1, s1) \<Rightarrow>
      if \<not> e1 then (Inl (HTTPException 404 (Msg ''User not found'')), s1)
      else case es_exists follow_id s1 of (e2, s2) \<Rightarrow>
      if \<not> e2 then (Inl (HTTPException 404 (Msg ''Follow user not found'')), s2)
      else if i = follow_id then (Inl (HTTPException 400 (Msg ''Cannot follow self'')), s2)
      else case es_get i s2 of
        (Inl e, s3) \<Rightarrow> (Inl e, s3)
      | (Inr user_doc, s3) \<Rightarrow>
          if follow_id \<notin> set (get_following user_doc) then
            (case doc_following user_doc of
               None \<Rightarrow> (Inl (KeyError ''following''), s3)
             | Some fs \<Rightarrow>
                 (case es_update i (fs @ [follow_id]) s3 of
                    (Inl e, s4) \<Rightarrow> (Inl e, s4)
                  | (Inr u, s4) \<Rightarrow> (Inr (i, fs @ [follow_id]), s4)))
          else
            (case doc_following user_doc of
               None \<Rightarrow> (Inl (KeyError ''following''), s3)
             | Some fs \<Rightarrow> (Inr (i, fs), s3)))"

definition add_follow :: "int \<Rightarrow> int \<Rightarrow> es \<Rightarrow> (exn + int \<times> int list) \<times> es" where
  "add_follow i follow_id s = handle (add_follow_try i follow_id s)"

definition remove_follow_try :: "int \<Rightarrow> int \<Rightarrow> es \<Rightarrow> (exn + int \<times> int list) \<times> es" where
  "remove_follow_try i follow_id s =
     (case es_exists i s of (e1, s1) \<Rightarrow>
      if \<not> e1 then (Inl (HTTPException 404 (Msg ''User not found'')), s1)
      else case es_exists follow_id s1 of (e2, s2) \<Rightarrow>
      if \<not> e2 then (Inl (HTTPException 404 (Msg ''Follow user not found'')), s2)
      else case es_get i s2 of
        (Inl e, s3) \<Rightarrow> (Inl e, s3)
      | (Inr user_doc, s3) \<Rightarrow>
          (case es_update i (filter (\<lambda>f. f \<noteq> follow_id) (get_following user_doc)) s3 of
             (Inl e, s4) \<Rightarrow> (Inl e, s4)
           | (Inr u, s4) \<Rightarrow>
               (Inr (i, filter (\<lambda>f. f \<noteq> follow_id) (get_following user_doc)), s4)))"

definition remove_follow :: "int \<Rightarrow> int \<Rightarrow> es \<Rightarrow> (exn + int \<times> int list) \<times> es" where
  "remove_follow i follow_id s = handle (remove_follow_try i follow_id s)"

section \<open>Floating-point arithmetic\<close>

text \<open>
  Comparison and negation of doubles are exact, so they are those of the reals. Every
  operation that rounds is a field of the record \<open>arith\<close>, which the functions that compute
  take as a parameter \<open>fl\<close>: the arithmetic of the machine is one value of that record, and
  what is proved for every \<open>fl\<close> holds of it whatever its rounding is.
  \<open>f_pow\<close> is Python's operator \<^verbatim>\<open>**\<close> on floats, which raises OverflowError when the
  result is out of range: it returns a number or an exception. The other fields are
  \<^verbatim>\<open>+\<close>, \<^verbatim>\<open>-\<close>, \<^verbatim>\<open>*\<close>, \<^verbatim>\<open>/\<close> and the functions \<^verbatim>\<open>sin\<close>, \<^verbatim>\<open>cos\<close>,
  \<^verbatim>\<open>sqrt\<close> (on an argument that is not negative), \<^verbatim>\<open>atan2\<close> and \<^verbatim>\<open>radians\<close> of the
  module \<^verbatim>\<open>math\<close>.
\<close>

record arith =
  f_add :: "real \<Rightarrow> real \<Rightarrow> real"
  f_sub :: "real \<Rightarrow> real \<Rightarrow> real"
  f_mul :: "real \<Rightarrow> real \<Rightarrow> real"
  f_div :: "real \<Rightarrow> real \<Rightarrow> real"
  f_pow :: "real \<Rightarrow> real \<Rightarrow> exn + real"
  f_sin :: "real \<Rightarrow> real"
  f_cos :: "real \<Rightarrow> real"
  f_sqrt :: "real \<Rightarrow> real"
  f_atan2 :: "real \<Rightarrow> real \<Rightarrow> real"
  f_radians :: "real \<Rightarrow> real"

text \<open>\<^verbatim>\<open>math.sqrt\<close> raises ValueError on a negative argument.\<close>

definition math_sqrt :: "arith \<Rightarrow> real \<Rightarrow> exn + real" where
  "math_sqrt fl r = (if r < 0 then Inl ValueError else Inr (f_sqrt fl r))"

text \<open>
  The arithmetic that does not round, in which every operation is the function of the
  reals that it approximates. The examples are evaluated in it.
\<close>

definition atan2 :: "real \<Rightarrow> real \<Rightarrow> real" where
  "atan2 v u =
     (if 0 < u then arctan (v / u)
      else if u < 0 then (if 0 \<le> v then arctan (v / u) + pi else arctan (v / u) - pi)
      else if 0 < v then pi / 2
      else if v < 0 then - (pi / 2)
      else 0)"

definition exact :: arith where
  "exact =
     \<lparr>f_add = (\<lambda>a b. a + b), f_sub = (\<lambda>a b. a - b), f_mul = (\<lambda>a b. a * b),
      f_div = (\<lambda>a b. a / b),
      f_pow = (\<lambda>a b. Inr (if b = 2 then a\<^sup>2 else if b = 1 / 2 then sqrt a else a powr b)),
      f_sin = sin, f_cos = cos, f_sqrt = sqrt, f_atan2 = atan2,
      f_radians = (\<lambda>d. d * pi / 180)\<rparr>"

section \<open>Matches 2.py: scoring and sorting on the client\<close>

definition calculate_distance :: "arith \<Rightarrow> real \<Rightarrow> real \<Rightarrow> real \<Rightarrow> real \<Rightarrow> exn + real" where
  "calculate_distance fl lat1 lon1 lat2 lon2 =
     (let R = 6371;
          rlat1 = f_radians fl lat1; rlon1 = f_radians fl lon1;
          rlat2 = f_radians fl lat2; rlon2 = f_radians fl lon2;
          dlat = f_sub fl rlat2 rlat1;
          dlon = f_sub fl rlon2 rlon1
      in case f_pow fl (f_sin fl (f_div fl dlat 2)) 2 of
           Inl e \<Rightarrow> Inl e
         | Inr p \<Rightarrow>
             (case f_pow fl (f_sin fl (f_div fl dlon 2)) 2 of
                Inl e \<Rightarrow> Inl e
              | Inr q \<Rightarrow>
                  (let a = f_add fl p (f_mul fl (f_mul fl (f_cos fl rlat1) (f_cos fl rlat2)) q)
                   in case math_sqrt fl a of
                        Inl e \<Rightarrow> Inl e
                      | Inr ra \<Rightarrow>
                          (case math_sqrt fl (f_sub fl 1 a) of
                             Inl e \<Rightarrow> Inl e
                           | Inr rb \<Rightarrow> Inr (f_mul fl R (f_mul fl 2 (f_atan2 fl ra rb)))))))"

text \<open>
  The great-circle distance in the words of the specification: the haversine formula on
  positions (longitude, latitude) in degrees, angles converted to radians, mean Earth
  radius 6371.0 km, over the real numbers.
\<close>

definition greatCircle :: "Location \<Rightarrow> Location \<Rightarrow> real" where
  "greatCircle P Q =
     (let lat1 = lat P * pi / 180; lat2 = lat Q * pi / 180;
          \<Delta>lat = lat2 - lat1; \<Delta>lon = lon Q * pi / 180 - lon P * pi / 180;
          a = (sin (\<Delta>lat / 2))\<^sup>2 + cos lat1 * cos lat2 * (sin (\<Delta>lon / 2))\<^sup>2
      in 2 * 6371 * atan2 (sqrt a) (sqrt (1 - a)))"

text \<open>
  Pydantic's validation of \<^verbatim>\<open>User(id=..., **source)\<close>: the required fields must be
  present and gender and status must be values of their enumerations; keys the model does
  not declare are ignored.
\<close>

definition Gender_of :: "string \<Rightarrow> Gender option" where
  "Gender_of g = (if g = ''male'' then Some male else if g = ''female'' then Some female else None)"

definition Status_of :: "string \<Rightarrow> Status option" where
  "Status_of g = (if g = ''married'' then Some married else if g = ''single'' then Some single else None)"

definition mk_User :: "int \<Rightarrow> string option \<Rightarrow> string option \<Rightarrow> string option \<Rightarrow> int list option
    \<Rightarrow> Location option \<Rightarrow> exn + User" where
  "mk_User i n g st fs l =
     (case (n, Option.bind g Gender_of, Option.bind st Status_of, fs, l) of
        (Some n', Some g', Some st', Some fs', Some l') \<Rightarrow>
          Inr \<lparr>user_id = Some i, user_name = n', user_gender = g', user_status = st',
               user_following = fs', user_location = l'\<rparr>
      | _ \<Rightarrow> Inl ValidationError)"

text \<open>
  Pydantic's validation of a location: a dict that holds \<^verbatim>\<open>lon\<close> and \<^verbatim>\<open>lat\<close>.
\<close>

definition Location_of_loc :: "loc \<Rightarrow> Location option" where
  "Location_of_loc l =
     (case l of
        Loc_dict kv \<Rightarrow>
          (case (map_of kv ''lon'', map_of kv ''lat'') of
             (Some a, Some b) \<Rightarrow> Some \<lparr>lon = a, lat = b\<rparr>
           | _ \<Rightarrow> None)
      | Loc_list vs \<Rightarrow> None)"

text \<open>
  The search of the client-side variants: the documents with status single other than the
  requester, in the order of the index, at most 10000 of them.
\<close>

definition es_search :: "int \<Rightarrow> es \<Rightarrow> (int \<times> doc) list \<times> es" where
  "es_search i s =
     (take 10000 (filter (\<lambda>(k, d). doc_status d = Some ''single'' \<and> k \<noteq> i) (docs s)),
      s\<lparr>calls := calls s @ [Search i]\<rparr>)"

text \<open>A \<^verbatim>\<open>for\<close> loop that appends one value per element and stops at the first exception.\<close>

fun for_each :: "('a \<Rightarrow> exn + 'b) \<Rightarrow> 'a list \<Rightarrow> exn + 'b list" where
  "for_each f [] = Inr []"
| "for_each f (h # hs) =
     (case f h of
        Inl e \<Rightarrow> Inl e
      | Inr v \<Rightarrow> (case for_each f hs of Inl e \<Rightarrow> Inl e | Inr vs \<Rightarrow> Inr (v # vs)))"

record match =
  match_user :: User
  common_hobbies :: nat
  distance :: real

definition get_x :: "doc \<Rightarrow> real" where
  "get_x d = (case doc_x d of None \<Rightarrow> 0 | Some v \<Rightarrow> v)"

definition get_y :: "doc \<Rightarrow> real" where
  "get_y d = (case doc_y d of None \<Rightarrow> 0 | Some v \<Rightarrow> v)"

definition get_hobbies :: "doc \<Rightarrow> string list" where
  "get_hobbies d = (case doc_hobbies d of None \<Rightarrow> [] | Some hs \<Rightarrow> hs)"

definition source_location :: "doc \<Rightarrow> Location" where
  "source_location d =
     (case (doc_x d, doc_y d) of
        (Some vx, Some vy) \<Rightarrow> \<lparr>lon = vx, lat = vy\<rparr>
      | _ \<Rightarrow> \<lparr>lon = 0, lat = 0\<rparr>)"

definition User_of_source :: "int \<Rightarrow> doc \<Rightarrow> exn + User" where
  "User_of_source i d =
     mk_User i (doc_name d) (doc_gender d) (doc_status d) (doc_following d)
       (Some (source_location d))"

text \<open>
  The distance of one hit: \<^verbatim>\<open>user_location\<close> and \<^verbatim>\<open>match_location\<close> are the pairs
  [x, y], and the call passes latitude (y) before longitude (x).
\<close>

definition haversine_distance :: "arith \<Rightarrow> doc \<Rightarrow> int \<times> doc \<Rightarrow> exn + real" where
  "haversine_distance fl user_doc hit =
     calculate_distance fl (get_y user_doc) (get_x user_doc) (get_y (snd hit)) (get_x (snd hit))"

definition score_haversine :: "arith \<Rightarrow> doc \<Rightarrow> int \<times> doc \<Rightarrow> exn + match" where
  "score_haversine fl user_doc hit =
     (case hit of (match_id, source) \<Rightarrow>
      case haversine_distance fl user_doc (match_id, source) of
        Inl e \<Rightarrow> Inl e
      | Inr km \<Rightarrow>
          (case User_of_source match_id source of
             Inl e \<Rightarrow> Inl e
           | Inr u \<Rightarrow>
               Inr \<lparr>match_user = u,
                    common_hobbies = card (set (get_hobbies user_doc) \<inter> set (get_hobbies source)),
                    distance = km\<rparr>))"

definition sort_key_of :: "match \<Rightarrow> int \<times> real" where
  "sort_key_of m = (- int (common_hobbies m), distance m)"

text \<open>
  \<^verbatim>\<open>list.sort(key=...)\<close> is a stable sort on the keys, tuples compared
  lexicographically; the insertion sort of the library is one.
\<close>

definition get_matches_haversine_try :: "arith \<Rightarrow> int \<Rightarrow> es \<Rightarrow> (exn + User list) \<times> es" where
  "get_matches_haversine_try fl i s =
     (case es_exists i s of (e1, s1) \<Rightarrow>
      if \<not> e1 then (Inl (HTTPException 404 (Msg ''User not found'')), s1)
      else case es_get i s1 of
        (Inl e, s2) \<Rightarrow> (Inl e, s2)
      | (Inr user_doc, s2) \<Rightarrow>
          if doc_status user_doc \<noteq> Some ''single'' then (Inr [], s2)
          else case es_search i s2 of (hits, s3) \<Rightarrow>
            (case for_each (score_haversine fl user_doc) hits of
               Inl e \<Rightarrow> (Inl e, s3)
             | Inr matches \<Rightarrow> (Inr (map match_user (sort_key sort_key_of matches)), s3)))"

definition get_matches_haversine :: "arith \<Rightarrow> int \<Rightarrow> es \<Rightarrow> (exn + User list) \<times> es" where
  "get_matches_haversine fl i s = handle (get_matches_haversine_try fl i s)"

section \<open>Matches 3.py: the same with the distance in the coordinate plane\<close>

text \<open>
  The distance of one hit, the expression
  \<^verbatim>\<open>((user_location[0] - match_location[0]) ** 2 + (user_location[1] - match_location[1]) ** 2) ** 0.5\<close>.
\<close>

definition planar_distance :: "arith \<Rightarrow> doc \<Rightarrow> int \<times> doc \<Rightarrow> exn + real" where
  "planar_distance fl user_doc hit =
     (case f_pow fl (f_sub fl (get_x user_doc) (get_x (snd hit))) 2 of
        Inl e \<Rightarrow> Inl e
      | Inr p \<Rightarrow>
          (case f_pow fl (f_sub fl (get_y user_doc) (get_y (snd hit))) 2 of
             Inl e \<Rightarrow> Inl e
           | Inr q \<Rightarrow> f_pow fl (f_add fl p q) (1 / 2)))"

definition score_planar :: "arith \<Rightarrow> doc \<Rightarrow> int \<times> doc \<Rightarrow> exn + match" where
  "score_planar fl user_doc hit =
     (case hit of (match_id, source) \<Rightarrow>
      case planar_distance fl user_doc (match_id, source) of
        Inl e \<Rightarrow> Inl e
      | Inr r \<Rightarrow>
          (case User_of_source match_id source of
             Inl e \<Rightarrow> Inl e
           | Inr u \<Rightarrow>
               Inr \<lparr>match_user = u,
                    common_hobbies = card (set (get_hobbies user_doc) \<inter> set (get_hobbies source)),
                    distance = r\<rparr>))"

definition get_matches_planar_try :: "arith \<Rightarrow> int \<Rightarrow> es \<Rightarrow> (exn + User list) \<times> es" where
  "get_matches_planar_try fl i s =
     (case es_exists i s of (e1, s1) \<Rightarrow>
      if \<not> e1 then (Inl (HTTPException 404 (Msg ''User not found'')), s1)
      else case es_get i s1 of
        (Inl e, s2) \<Rightarrow> (Inl e, s2)
      | (Inr user_doc, s2) \<Rightarrow>
          if doc_status user_doc \<noteq> Some ''single'' then (Inr [], s2)
          else case es_search i s2 of (hits, s3) \<Rightarrow>
            (case for_each (score_planar fl user_doc) hits of
               Inl e \<Rightarrow> (Inl e, s3)
             | Inr matches \<Rightarrow> (Inr (map match_user (sort_key sort_key_of matches)), s3)))"

definition get_matches_planar :: "arith \<Rightarrow> int \<Rightarrow> es \<Rightarrow> (exn + User list) \<times> es" where
  "get_matches_planar fl i s = handle (get_matches_planar_try fl i s)"

section \<open>Matches.py: scoring and sorting inside the index\<close>

text \<open>
  The sort script of the query, written in Painless: it counts the entries of the
  requester's hobby list (a list, passed as a parameter) that the document's hobbies
  contain.
\<close>

definition script_common :: "string list \<Rightarrow> doc \<Rightarrow> nat" where
  "script_common user_hobbies d =
     length (filter (\<lambda>hobby. hobby \<in> set (get_hobbies d)) user_hobbies)"

text \<open>
  The search engine that evaluates the two sort clauses is not among the sources, so the
  order in which it returns the filtered documents is a parameter \<open>srt\<close> of the handler: a
  function from the parameters of the sort (the hobby list and the reference point) and
  the filtered documents to the hits. The query asks for at most 10000 of them.
\<close>

type_synonym sorter = "string list \<Rightarrow> real \<Rightarrow> real \<Rightarrow> (int \<times> doc) list \<Rightarrow> (int \<times> doc) list"

definition es_search_sorted :: "sorter \<Rightarrow> int \<Rightarrow> string list \<Rightarrow> real \<Rightarrow> real \<Rightarrow> es
    \<Rightarrow> (int \<times> doc) list \<times> es" where
  "es_search_sorted srt i user_hobbies user_x user_y s =
     (take 10000
        (srt user_hobbies user_x user_y
           (filter (\<lambda>(k, d). doc_status d = Some ''single'' \<and> k \<noteq> i) (docs s))),
      s\<lparr>calls := calls s @ [Search_sorted i user_hobbies user_x user_y]\<rparr>)"

definition get_matches_try :: "sorter \<Rightarrow> int \<Rightarrow> es \<Rightarrow> (exn + User list) \<times> es" where
  "get_matches_try srt i s =
     (case es_exists i s of (e1, s1) \<Rightarrow>
      if \<not> e1 then (Inl (HTTPException 404 (Msg ''User not found'')), s1)
      else case es_get i s1 of
        (Inl e, s2) \<Rightarrow> (Inl e, s2)
      | (Inr user_doc, s2) \<Rightarrow>
          if doc_status user_doc \<noteq> Some ''single'' then (Inr [], s2)
          else case es_search_sorted srt i (get_hobbies user_doc) (get_x user_doc)
                      (get_y user_doc) s2
               of (hits, s3) \<Rightarrow>
            (case for_each (\<lambda>(match_id, source). User_of_source match_id source) hits of
               Inl e \<Rightarrow> (Inl e, s3)
             | Inr matches \<Rightarrow> (Inr matches, s3)))"

definition get_matches :: "sorter \<Rightarrow> int \<Rightarrow> es \<Rightarrow> (exn + User list) \<times> es" where
  "get_matches srt i s = handle (get_matches_try srt i s)"

text \<open>
  Modelled from the spec: what the engine's sort does is not among the sources. In the
  words of the specification and of the two sort clauses of the query, the hits are in
  descending order of the value of the sort script, then in ascending order of their
  distance from the reference point (latitude \<open>user_y\<close>, longitude \<open>user_x\<close>): they are
  ascending in this key. How the engine measures the distance is left open: \<open>gd\<close> is a
  parameter.
\<close>

definition native_key :: "(real \<Rightarrow> real \<Rightarrow> doc \<Rightarrow> real) \<Rightarrow> string list \<Rightarrow> real \<Rightarrow> real
    \<Rightarrow> int \<times> doc \<Rightarrow> int \<times> real" where
  "native_key gd user_hobbies user_x user_y hit =
     (- int (script_common user_hobbies (snd hit)), gd user_y user_x (snd hit))"

text \<open>
  Modelled from the spec: the contract of the engine's sort, which is not among the
  sources. The hits are the filtered documents, each once, in ascending order of the key.
  The order of documents that are equal on the key is left open.
\<close>

definition sorts_by :: "(real \<Rightarrow> real \<Rightarrow> doc \<Rightarrow> real) \<Rightarrow> sorter \<Rightarrow> string list \<Rightarrow> real \<Rightarrow> real
    \<Rightarrow> (int \<times> doc) list \<Rightarrow> bool" where
  "sorts_by gd srt user_hobbies user_x user_y cands =
     (mset (srt user_hobbies user_x user_y cands) = mset cands
      \<and> sorted (map (native_key gd user_hobbies user_x user_y)
                  (srt user_hobbies user_x user_y cands)))"

text \<open>
  Modelled from the spec: the position of a document for an example engine, which is not
  among the sources. It is the field \<^verbatim>\<open>location\<close> that the sort clause names, a list
  [lon, lat] or a dict, a missing position standing for (0, 0).
\<close>

definition geo_point :: "doc \<Rightarrow> Location" where
  "geo_point d =
     (case doc_location d of
        Some (Loc_list [a, b]) \<Rightarrow> \<lparr>lon = a, lat = b\<rparr>
      | Some (Loc_dict kv) \<Rightarrow>
          (case Location_of_loc (Loc_dict kv) of Some l \<Rightarrow> l | None \<Rightarrow> \<lparr>lon = 0, lat = 0\<rparr>)
      | _ \<Rightarrow> \<lparr>lon = 0, lat = 0\<rparr>)"

text \<open>
  Modelled from the spec: the distance of the example engine, the great-circle distance of
  the specification between the reference point and the position of the document.
\<close>

definition geo_distance :: "real \<Rightarrow> real \<Rightarrow> doc \<Rightarrow> real" where
  "geo_distance user_lat user_lon d = greatCircle \<lparr>lon = user_lon, lat = user_lat\<rparr> (geo_point d)"

text \<open>
  Modelled from the spec: the example engine, one sort that meets the contract. That it
  keeps documents with equal keys in the order of the index is a choice of the example,
  on which no theorem rests.
\<close>

definition stable_store :: sorter where
  "stable_store user_hobbies user_x user_y =
     sort_key (native_key geo_distance user_hobbies user_x user_y)"

section \<open>Suggestions\<close>

text \<open>
  \<^verbatim>\<open>suggested_ids\<close> is a Python set, whose iteration order the language leaves open.
  The model keeps it as a list without duplicates in some order; the theorems on the
  result speak of its members, never of their order.
\<close>

fun collect_suggested :: "int list \<Rightarrow> int list \<Rightarrow> es \<Rightarrow> (exn + int list) \<times> es" where
  "collect_suggested [] suggested_ids s = (Inr suggested_ids, s)"
| "collect_suggested (followed_id # rest) suggested_ids s =
     (case es_exists followed_id s of (e, s1) \<Rightarrow>
      if e then
        (case es_get followed_id s1 of
           (Inl x, s2) \<Rightarrow> (Inl x, s2)
         | (Inr followed_doc, s2) \<Rightarrow>
             collect_suggested rest (List.union (get_following followed_doc) suggested_ids) s2)
      else collect_suggested rest suggested_ids s1)"

definition discard_all :: "int \<Rightarrow> int list \<Rightarrow> int list \<Rightarrow> int list" where
  "discard_all i following suggested_ids = fold removeAll following (removeAll i suggested_ids)"

fun fetch_each :: "(int \<Rightarrow> doc \<Rightarrow> exn + 'u list) \<Rightarrow> int list \<Rightarrow> es \<Rightarrow> (exn + 'u list) \<times> es" where
  "fetch_each f [] s = (Inr [], s)"
| "fetch_each f (sid # rest) s =
     (case es_exists sid s of (e, s1) \<Rightarrow>
      if e then
        (case es_get sid s1 of
           (Inl x, s2) \<Rightarrow> (Inl x, s2)
         | (Inr d, s2) \<Rightarrow>
             (case f sid d of
                Inl x \<Rightarrow> (Inl x, s2)
              | Inr us \<Rightarrow>
                  (case fetch_each f rest s2 of
                     (Inl x, s3) \<Rightarrow> (Inl x, s3)
                   | (Inr others, s3) \<Rightarrow> (Inr (us @ others), s3))))
      else fetch_each f rest s1)"

text \<open>
  routes/suggestions.py: a location stored as a list is turned into a dict first, then
  the fields are read with \<^verbatim>\<open>doc[...]\<close> in the order of the call's arguments, then
  the model validates them. The following list of the result is the literal \<^verbatim>\<open>[]\<close>.
\<close>

definition convert_location :: "doc \<Rightarrow> exn + loc option" where
  "convert_location d =
     (case doc_location d of
        Some (Loc_list vs) \<Rightarrow>
          (if 2 \<le> length vs then Inr (Some (Loc_dict [(''lon'', vs ! 0), (''lat'', vs ! 1)]))
           else Inl IndexError)
      | other \<Rightarrow> Inr other)"

definition suggestion_of :: "int \<Rightarrow> doc \<Rightarrow> exn + User list" where
  "suggestion_of sid d =
     (case convert_location d of
        Inl e \<Rightarrow> Inl e
      | Inr location \<Rightarrow>
          if doc_name d = None then Inl (KeyError ''name'')
          else if doc_gender d = None then Inl (KeyError ''gender'')
          else if doc_status d = None then Inl (KeyError ''status'')
          else (case location of
                  None \<Rightarrow> Inl (KeyError ''location'')
                | Some l \<Rightarrow>
                    (case mk_User sid (doc_name d) (doc_gender d) (doc_status d) (Some [])
                            (Location_of_loc l) of
                       Inl e \<Rightarrow> Inl e
                     | Inr u \<Rightarrow> Inr [u])))"

definition get_user_suggestions_try :: "int \<Rightarrow> es \<Rightarrow> (exn + User list) \<times> es" where
  "get_user_suggestions_try i s =
     (case es_exists i s of (e1, s1) \<Rightarrow>
      if \<not> e1 then (Inl (HTTPException 404 (Msg ''User not found'')), s1)
      else case es_get i s1 of
        (Inl e, s2) \<Rightarrow> (Inl e, s2)
      | (Inr user_doc, s2) \<Rightarrow>
          (case collect_suggested (get_following user_doc) [] s2 of
             (Inl e, s3) \<Rightarrow> (Inl e, s3)
           | (Inr suggested_ids, s3) \<Rightarrow>
               fetch_each suggestion_of
                 (discard_all i (get_following user_doc) suggested_ids) s3))"

definition get_user_suggestions :: "int \<Rightarrow> es \<Rightarrow> (exn + User list) \<times> es" where
  "get_user_suggestions i s = handle (get_user_suggestions_try i s)"

text \<open>
  main.py: the same traversal; the result model has no name and no following list, and
  its location has the fields x and y.
\<close>

record UserSuggestion =
  suggestion_id :: int
  suggestion_gender :: Gender
  suggestion_status :: Status
  suggestion_location :: "real \<times> real"

definition xy_of_loc :: "loc \<Rightarrow> (real \<times> real) option" where
  "xy_of_loc l =
     (case l of
        Loc_dict kv \<Rightarrow>
          (case (map_of kv ''x'', map_of kv ''y'') of
             (Some a, Some b) \<Rightarrow> Some (a, b)
           | _ \<Rightarrow> None)
      | Loc_list vs \<Rightarrow> None)"

definition user_suggestion_of :: "int \<Rightarrow> doc \<Rightarrow> exn + UserSuggestion list" where
  "user_suggestion_of sid d =
     (if doc_gender d = None then Inl (KeyError ''gender'')
      else if doc_status d = None then Inl (KeyError ''status'')
      else case doc_location d of
        None \<Rightarrow> Inl (KeyError ''location'')
      | Some l \<Rightarrow>
          (case (Option.bind (doc_gender d) Gender_of, Option.bind (doc_status d) Status_of,
                 xy_of_loc l) of
             (Some g, Some st, Some xy) \<Rightarrow>
               Inr [\<lparr>suggestion_id = sid, suggestion_gender = g, suggestion_status = st,
                     suggestion_location = xy\<rparr>]
           | _ \<Rightarrow> Inl ValidationError))"

definition get_user_suggestions_main_try :: "int \<Rightarrow> es \<Rightarrow> (exn + UserSuggestion list) \<times> es" where
  "get_user_suggestions_main_try i s =
     (case es_exists i s of (e1, s1) \<Rightarrow>
      if \<not> e1 then (Inl (HTTPException 404 (Msg ''User not found'')), s1)
      else case es_get i s1 of
        (Inl e, s2) \<Rightarrow> (Inl e, s2)
      | (Inr user_doc, s2) \<Rightarrow>
          (case collect_suggested (get_following user_doc) [] s2 of
             (Inl e, s3) \<Rightarrow> (Inl e, s3)
           | (Inr suggested_ids, s3) \<Rightarrow>
               fetch_each user_suggestion_of
                 (discard_all i (get_following user_doc) suggested_ids) s3))"

definition get_user_suggestions_main :: "int \<Rightarrow> es \<Rightarrow> (exn + UserSuggestion list) \<times> es" where
  "get_user_suggestions_main i s = handle (get_user_suggestions_main_try i s)"

text \<open>
  Suggest 2.py, the status-aware variant: a requester who is not single gets the empty
  list before any traversal, and only single candidates are kept. The keyword
  \<^verbatim>\<open>interested_in\<close> is not a field of the response model and is ignored.
\<close>

definition single_suggestion_of :: "int \<Rightarrow> doc \<Rightarrow> exn + User list" where
  "single_suggestion_of sid d =
     (if doc_status d = Some ''single'' then suggestion_of sid d else Inr [])"

definition get_user_suggestions_single_try :: "int \<Rightarrow> es \<Rightarrow> (exn + User list) \<times> es" where
  "get_user_suggestions_single_try i s =
     (case es_exists i s of (e1, s1) \<Rightarrow>
      if \<not> e1 then (Inl (HTTPException 404 (Msg ''User not found'')), s1)
      else case es_get i s1 of
        (Inl e, s2) \<Rightarrow> (Inl e, s2)
      | (Inr user_doc, s2) \<Rightarrow>
          if doc_status user_doc \<noteq> Some ''single'' then (Inr [], s2)
          else
            (case collect_suggested (get_following user_doc) [] s2 of
               (Inl e, s3) \<Rightarrow> (Inl e, s3)
             | (Inr suggested_ids, s3) \<Rightarrow>
                 fetch_each single_suggestion_of
                   (discard_all i (get_following user_doc) suggested_ids) s3))"

definition get_user_suggestions_single :: "int \<Rightarrow> es \<Rightarrow> (exn + User list) \<times> es" where
  "get_user_suggestions_single i s = handle (get_user_suggestions_single_try i s)"

section \<open>Well-formed documents and the keys of the specification\<close>

text \<open>
  A stored document from which \<^verbatim>\<open>User(id=..., **source)\<close> validates: it carries name,
  gender, status and following, and gender and status are values of their enumerations.
\<close>

definition valid_source :: "doc \<Rightarrow> bool" where
  "valid_source d =
     (doc_name d \<noteq> None \<and> Option.bind (doc_gender d) Gender_of \<noteq> None
      \<and> Option.bind (doc_status d) Status_of \<noteq> None \<and> doc_following d \<noteq> None)"

text \<open>
  A stored document from which routes/suggestions.py builds a user: name, gender and
  status as above and a location that is a list of at least two numbers or a dict with lon
  and lat.
\<close>

definition valid_suggestion :: "doc \<Rightarrow> bool" where
  "valid_suggestion d =
     (doc_name d \<noteq> None \<and> Option.bind (doc_gender d) Gender_of \<noteq> None
      \<and> Option.bind (doc_status d) Status_of \<noteq> None
      \<and> (case doc_location d of
            None \<Rightarrow> False
          | Some (Loc_list vs) \<Rightarrow> 2 \<le> length vs
          | Some (Loc_dict kv) \<Rightarrow> Location_of_loc (Loc_dict kv) \<noteq> None))"

text \<open>A stored document from which main.py builds a suggestion: its location has x and y.\<close>

definition valid_user_suggestion :: "doc \<Rightarrow> bool" where
  "valid_user_suggestion d =
     (Option.bind (doc_gender d) Gender_of \<noteq> None
      \<and> Option.bind (doc_status d) Status_of \<noteq> None
      \<and> (case doc_location d of None \<Rightarrow> False | Some l \<Rightarrow> xy_of_loc l \<noteq> None))"

text \<open>
  The number of common interests in the words of the specification: the cardinality of
  the intersection of the two interest sets.
\<close>

definition common_interests :: "doc \<Rightarrow> int \<times> doc \<Rightarrow> nat" where
  "common_interests user_doc hit = card (set (get_hobbies user_doc) \<inter> set (get_hobbies (snd hit)))"

text \<open>
  The sort key in the words of the specification: minus the number of common interests,
  then the great-circle distance between the two positions.
\<close>

definition ranking_key :: "doc \<Rightarrow> int \<times> doc \<Rightarrow> int \<times> real" where
  "ranking_key user_doc hit =
     (- int (common_interests user_doc hit),
      greatCircle \<lparr>lon = get_x user_doc, lat = get_y user_doc\<rparr>
        \<lparr>lon = get_x (snd hit), lat = get_y (snd hit)\<rparr>)"

text \<open>
  The sort key of a client-side variant whose distance computation returns \<open>r hit\<close> for
  each hit.
\<close>

definition scored_key :: "doc \<Rightarrow> (int \<times> doc \<Rightarrow> real) \<Rightarrow> int \<times> doc \<Rightarrow> int \<times> real" where
  "scored_key user_doc r hit = (- int (common_interests user_doc hit), r hit)"

text \<open>The ids reachable in two steps: what the existing members of a following list follow.\<close>

definition second_degree :: "(int \<times> doc) list \<Rightarrow> int list \<Rightarrow> int set" where
  "second_degree ds following =
     (\<Union>f \<in> set following. case map_of ds f of None \<Rightarrow> {} | Some d \<Rightarrow> set (get_following d))"

text \<open>
  Laws of the arithmetic under which the distance is symmetric and zero on the diagonal.
  Rounding to nearest is symmetric about zero, so a difference changes sign when its
  operands are exchanged, halving commutes with negation and a square does not depend
  on the sign; multiplication is commutative; the sine of the C library is odd; and the
  operations are exact at the arguments 0 and 1 listed last.
\<close>

definition symmetric_rounding :: "arith \<Rightarrow> bool" where
  "symmetric_rounding fl =
     ((\<forall>a b. f_sub fl a b = - f_sub fl b a)
      \<and> (\<forall>a. f_div fl (- a) 2 = - f_div fl a 2)
      \<and> (\<forall>a. f_sin fl (- a) = - f_sin fl a)
      \<and> (\<forall>a. f_pow fl (- a) 2 = f_pow fl a 2)
      \<and> (\<forall>a b. f_mul fl a b = f_mul fl b a)
      \<and> f_pow fl 0 2 = Inr 0
      \<and> (\<forall>a. f_mul fl a 0 = 0)
      \<and> f_add fl 0 0 = 0
      \<and> f_sub fl 1 0 = 1
      \<and> f_sqrt fl 0 = 0
      \<and> f_sqrt fl 1 = 1
      \<and> f_atan2 fl 0 1 = 0)"

section \<open>Example documents\<close>

definition profile :: "string \<Rightarrow> string \<Rightarrow> string \<Rightarrow> int list \<Rightarrow> real \<Rightarrow> real \<Rightarrow> string list \<Rightarrow> doc" where
  "profile n g st fs px py hs =
     \<lparr>doc_name = Some n, doc_gender = Some g, doc_status = Some st, doc_following = Some fs,
      doc_location = Some (Loc_list [px, py]), doc_x = Some px, doc_y = Some py,
      doc_hobbies = Some hs, doc_interested_in = None\<rparr>"

definition index_follow :: es where
  "index_follow =
     \<lparr>docs = [(1, profile ''John'' ''male'' ''single'' [] 0 0 []),
              (2, profile ''Jane'' ''female'' ''single'' [1] 0 0 [])],
      calls = []\<rparr>"

definition index_unfollow :: es where
  "index_unfollow =
     \<lparr>docs = [(1, profile ''John'' ''male'' ''single'' [2, 3, 4] 0 0 []),
              (3, profile ''Jane'' ''female'' ''single'' [] 0 0 []),
              (5, profile ''Eve'' ''female'' ''single'' [] 0 0 [])],
      calls = []\<rparr>"

definition index_one :: es where
  "index_one = \<lparr>docs = [(5, profile ''Eve'' ''female'' ''single'' [] 0 0 [])], calls = []\<rparr>"

definition index_married :: es where
  "index_married =
     \<lparr>docs = [(1, profile ''John'' ''male'' ''married'' [2] 0 0 [''reading'', ''hiking'']),
              (2, profile ''Jane'' ''female'' ''single'' [] 0 1 [''hiking''])],
      calls = []\<rparr>"

definition index_match :: es where
  "index_match =
     \<lparr>docs = [(1, profile ''John'' ''male'' ''single'' [] 0 0 [''reading'', ''hiking'']),
              (3, profile ''Yara'' ''female'' ''single'' [] 0 (1 / 100) [''hiking'']),
              (2, profile ''Xena'' ''female'' ''single'' [] 0 1 [''reading'', ''hiking'', ''cooking''])],
      calls = []\<rparr>"

definition index_polar :: es where
  "index_polar =
     \<lparr>docs = [(1, profile ''Ann'' ''female'' ''single'' [] 0 90 []),
              (2, profile ''Bob'' ''male'' ''single'' [] 180 90 []),
              (3, profile ''Carl'' ''male'' ''single'' [] 0 0 [])],
      calls = []\<rparr>"

definition profile_xy :: "string \<Rightarrow> string \<Rightarrow> int list \<Rightarrow> real \<Rightarrow> real \<Rightarrow> doc" where
  "profile_xy g st fs px py =
     \<lparr>doc_name = None, doc_gender = Some g, doc_status = Some st, doc_following = Some fs,
      doc_location = Some (Loc_dict [(''x'', px), (''y'', py)]), doc_x = None, doc_y = None,
      doc_hobbies = None, doc_interested_in = None\<rparr>"

definition index_suggest :: es where
  "index_suggest =
     \<lparr>docs = [(1, profile ''Uma'' ''female'' ''single'' [2] 0 0 []),
              (2, profile ''Abe'' ''male'' ''single'' [3, 1, 9] 1 1 []),
              (3, profile ''Bea'' ''female'' ''single'' [1, 2] 2 2 [])],
      calls = []\<rparr>"

definition index_suggest_xy :: es where
  "index_suggest_xy =
     \<lparr>docs = [(1, profile_xy ''female'' ''single'' [2] 0 0),
              (2, profile_xy ''male'' ''single'' [3, 1, 9] 1 1),
              (3, profile_xy ''female'' ''married'' [1, 2] 2 2)],
      calls = []\<rparr>"

definition index_dup :: es where
  "index_dup =
     \<lparr>docs = [(1, profile ''John'' ''male'' ''single'' [] 0 0 [''a'', ''a'', ''a'', ''b'', ''c'']),
              (2, profile ''Xena'' ''female'' ''single'' [] 0 1 [''a'']),
              (3, profile ''Yara'' ''female'' ''single'' [] 0 1 [''b'', ''c''])],
      calls = []\<rparr>"

text \<open>
  An arithmetic that obeys the laws above and overestimates every sum that is positive:
  in it the haversine sum of two antipodal points exceeds 1.
\<close>

definition coarse :: arith where
  "coarse = exact\<lparr>f_add := (\<lambda>a b. if 0 < a + b then a + b + 1 else a + b)\<rparr>"

section \<open>Properties of follow and unfollow\<close>

lemma map_of_set_following:
  "map_of (set_following i fs ds) k =
     (if k = i then map_option (\<lambda>d. d\<lparr>doc_following := Some fs\<rparr>) (map_of ds i) else map_of ds k)"
  by (induction ds) (auto simp: set_following_def)

lemma add_follow_try_ok:
  assumes "map_of (docs s) i = Some d" and "doc_following d = Some fs"
    and "map_of (docs s) t \<noteq> None" and "i \<noteq> t"
  shows "add_follow_try i t s =
     (if t \<in> set fs
      then (Inr (i, fs), s\<lparr>calls := calls s @ [Exists i, Exists t, Get i]\<rparr>)
      else (Inr (i, fs @ [t]),
            s\<lparr>docs := set_following i (fs @ [t]) (docs s),
              calls := calls s @ [Exists i, Exists t, Get i, Update i (fs @ [t])]\<rparr>))"
  using assms
  by (auto simp: add_follow_try_def es_exists_def es_get_def es_update_def get_following_def)

lemma remove_follow_try_ok:
  assumes "map_of (docs s) i = Some d" and "map_of (docs s) t \<noteq> None"
  shows "remove_follow_try i t s =
     (Inr (i, filter (\<lambda>f. f \<noteq> t) (get_following d)),
      s\<lparr>docs := set_following i (filter (\<lambda>f. f \<noteq> t) (get_following d)) (docs s),
        calls := calls s @ [Exists i, Exists t, Get i,
                   Update i (filter (\<lambda>f. f \<noteq> t) (get_following d))]\<rparr>)"
  using assms
  by (auto simp: remove_follow_try_def es_exists_def es_get_def es_update_def)

lemma count_list_distinct:
  "distinct xs \<Longrightarrow> count_list xs a = (if a \<in> set xs then 1 else 0)"
  by (induction xs) auto

lemma handle_Inr: "handle (Inr v, s) = (Inr v, s)"
  by simp

text \<open>
  C3: for an existing follower whose stored following list is duplicate-free and an
  existing, different target, \<^verbatim>\<open>add_follow\<close> succeeds; when the target is already followed it
  issues no update (the log grows by the two existence checks and the read only) and
  returns the list as stored, otherwise it appends the target and persists the new list.
  A second call right after the first returns the same list, leaves the documents as the
  first call left them and issues no update, and the returned list holds the target
  exactly once.
\<close>

theorem add_follow_idempotent:
  assumes "map_of (docs s) i = Some d" and "doc_following d = Some fs" and "distinct fs"
    and "map_of (docs s) t \<noteq> None" and "i \<noteq> t"
  shows "add_follow i t s =
     (if t \<in> set fs
      then (Inr (i, fs), s\<lparr>calls := calls s @ [Exists i, Exists t, Get i]\<rparr>)
      else (Inr (i, fs @ [t]),
            s\<lparr>docs := set_following i (fs @ [t]) (docs s),
              calls := calls s @ [Exists i, Exists t, Get i, Update i (fs @ [t])]\<rparr>))
   \<and> add_follow i t (snd (add_follow i t s)) =
       (fst (add_follow i t s),
        (snd (add_follow i t s))
          \<lparr>calls := calls (snd (add_follow i t s)) @ [Exists i, Exists t, Get i]\<rparr>)
   \<and> count_list (snd (projr (fst (add_follow i t s)))) t = 1"
proof -
  let ?fs' = "if t \<in> set fs then fs else fs @ [t]"
  let ?s1 = "snd (add_follow i t s)"
  have first: "add_follow i t s =
     (if t \<in> set fs
      then (Inr (i, fs), s\<lparr>calls := calls s @ [Exists i, Exists t, Get i]\<rparr>)
      else (Inr (i, fs @ [t]),
            s\<lparr>docs := set_following i (fs @ [t]) (docs s),
              calls := calls s @ [Exists i, Exists t, Get i, Update i (fs @ [t])]\<rparr>))"
    using add_follow_try_ok [OF assms(1,2,4,5)] by (simp add: add_follow_def)
  have res: "fst (add_follow i t s) = Inr (i, ?fs')"
    by (simp add: first)
  have d1: "map_of (docs ?s1) i = Some (if t \<in> set fs then d else d\<lparr>doc_following := Some (fs @ [t])\<rparr>)"
    using assms(1) by (simp add: first map_of_set_following)
  have f1: "doc_following (if t \<in> set fs then d else d\<lparr>doc_following := Some (fs @ [t])\<rparr>) = Some ?fs'"
    using assms(2) by simp
  have t1: "map_of (docs ?s1) t \<noteq> None"
    using assms(4,5) by (simp add: first map_of_set_following)
  have mem: "t \<in> set ?fs'" by simp
  have second: "add_follow i t ?s1 =
      (Inr (i, ?fs'), ?s1\<lparr>calls := calls ?s1 @ [Exists i, Exists t, Get i]\<rparr>)"
    using add_follow_try_ok [OF d1 f1 t1 assms(5)] mem
    by (simp only: add_follow_def if_True handle.simps)
  have cnt: "count_list ?fs' t = 1"
    using assms(3) by (simp add: count_list_distinct)
  show ?thesis
    using first second res cnt by simp
qed

text \<open>
  The follow theorem at the example index: a first follow writes, a repeated one does not.
\<close>

theorem add_follow_idempotent_witness:
  "add_follow 1 2 index_follow =
     (Inr (1, [2]),
      \<lparr>docs = [(1, profile ''John'' ''male'' ''single'' [2] 0 0 []),
               (2, profile ''Jane'' ''female'' ''single'' [1] 0 0 [])],
       calls = [Exists 1, Exists 2, Get 1, Update 1 [2]]\<rparr>)
   \<and> add_follow 2 1 index_follow =
     (Inr (2, [1]), index_follow\<lparr>calls := [Exists 2, Exists 1, Get 2]\<rparr>)"
  using add_follow_idempotent [of index_follow 1 "profile ''John'' ''male'' ''single'' [] 0 0 []" "[]" 2]
    add_follow_idempotent [of index_follow 2 "profile ''Jane'' ''female'' ''single'' [1] 0 0 []" "[1]" 1]
  by (simp add: index_follow_def profile_def set_following_def)

text \<open>
  C4: for an existing follower whose document stores the following list \<open>fs\<close> and an
  existing target, \<^verbatim>\<open>remove_follow\<close> succeeds and returns \<open>fs\<close> without the target, the
  other ids in their order; it issues the partial update with that list as its last call
  whether or not the list changed, and the document then stores that list. The target is
  not in the result, every other id of \<open>fs\<close> is, and when \<open>fs\<close> did not hold the target the
  result is \<open>fs\<close> itself.
\<close>

theorem remove_follow_unconditional_write:
  assumes "map_of (docs s) i = Some d" and "doc_following d = Some fs"
    and "map_of (docs s) t \<noteq> None"
  shows "remove_follow i t s =
     (Inr (i, filter (\<lambda>f. f \<noteq> t) fs),
      s\<lparr>docs := set_following i (filter (\<lambda>f. f \<noteq> t) fs) (docs s),
        calls := calls s @ [Exists i, Exists t, Get i, Update i (filter (\<lambda>f. f \<noteq> t) fs)]\<rparr>)
   \<and> t \<notin> set (filter (\<lambda>f. f \<noteq> t) fs)
   \<and> set (filter (\<lambda>f. f \<noteq> t) fs) = set fs - {t}
   \<and> (if t \<in> set fs then length (filter (\<lambda>f. f \<noteq> t) fs) < length fs
      else filter (\<lambda>f. f \<noteq> t) fs = fs)
   \<and> map_option doc_following (map_of (docs (snd (remove_follow i t s))) i)
       = Some (Some (filter (\<lambda>f. f \<noteq> t) fs))"
proof -
  have stored: "get_following d = fs"
    using assms(2) by (simp add: get_following_def)
  have run: "remove_follow i t s =
     (Inr (i, filter (\<lambda>f. f \<noteq> t) fs),
      s\<lparr>docs := set_following i (filter (\<lambda>f. f \<noteq> t) fs) (docs s),
        calls := calls s @ [Exists i, Exists t, Get i, Update i (filter (\<lambda>f. f \<noteq> t) fs)]\<rparr>)"
    using remove_follow_try_ok [OF assms(1,3)] by (simp add: remove_follow_def stored)
  have absent: "t \<notin> set xs \<Longrightarrow> filter (\<lambda>f. f \<noteq> t) xs = xs" for xs :: "int list"
    by (induction xs) auto
  have present: "t \<in> set xs \<Longrightarrow> length (filter (\<lambda>f. f \<noteq> t) xs) < length xs" for xs :: "int list"
    by (rule length_filter_less [of t]) simp_all
  have split: "set (filter (\<lambda>f. f \<noteq> t) xs) = set xs - {t}" for xs :: "int list"
    by auto
  have kept: "map_option doc_following (map_of (docs (snd (remove_follow i t s))) i)
       = Some (Some (filter (\<lambda>f. f \<noteq> t) fs))"
    using assms(1) by (simp add: run map_of_set_following)
  show ?thesis
    using run absent present split kept by simp
qed

text \<open>
  The unfollow theorem at an example index whose follower follows 2, 3 and 4: removing 3
  leaves 2 and 4, and removing 5, which is not followed, leaves the list as it is and
  still issues the update.
\<close>

theorem remove_follow_unconditional_write_witness:
  "remove_follow 1 3 index_unfollow =
     (Inr (1, [2, 4]),
      \<lparr>docs = [(1, profile ''John'' ''male'' ''single'' [2, 4] 0 0 []),
               (3, profile ''Jane'' ''female'' ''single'' [] 0 0 []),
               (5, profile ''Eve'' ''female'' ''single'' [] 0 0 [])],
       calls = [Exists 1, Exists 3, Get 1, Update 1 [2, 4]]\<rparr>)
   \<and> remove_follow 1 5 index_unfollow =
     (Inr (1, [2, 3, 4]),
      index_unfollow\<lparr>calls := [Exists 1, Exists 5, Get 1, Update 1 [2, 3, 4]]\<rparr>)"
  using remove_follow_unconditional_write [of index_unfollow 1
      "profile ''John'' ''male'' ''single'' [2, 3, 4] 0 0 []" "[2, 3, 4]" 3]
    remove_follow_unconditional_write [of index_unfollow 1
      "profile ''John'' ''male'' ''single'' [2, 3, 4] 0 0 []" "[2, 3, 4]" 5]
  by (simp add: index_unfollow_def profile_def set_following_def)

text \<open>
  C5: a self-follow of the existing profile 5, and a follow of the missing profile 8. The
  body of \<^verbatim>\<open>add_follow\<close> raises 400 "Cannot follow self" and 404 "Follow user not found"
  after the two existence checks, without a read or an update, and the documents are
  unchanged; the handler's own catch-all clause catches either exception, and the caller
  receives status 500.
\<close>

theorem add_follow_self_surfaces_500:
  "add_follow_try 5 5 index_one =
     (Inl (HTTPException 400 (Msg ''Cannot follow self'')),
      index_one\<lparr>calls := [Exists 5, Exists 5]\<rparr>)
   \<and> add_follow 5 5 index_one =
     (Inl (HTTPException 500 (Str (HTTPException 400 (Msg ''Cannot follow self'')))),
      index_one\<lparr>calls := [Exists 5, Exists 5]\<rparr>)
   \<and> add_follow_try 5 8 index_one =
     (Inl (HTTPException 404 (Msg ''Follow user not found'')),
      index_one\<lparr>calls := [Exists 5, Exists 8]\<rparr>)
   \<and> add_follow 5 8 index_one =
     (Inl (HTTPException 500 (Str (HTTPException 404 (Msg ''Follow user not found'')))),
      index_one\<lparr>calls := [Exists 5, Exists 8]\<rparr>)"
  by (simp add: add_follow_def add_follow_try_def es_exists_def index_one_def)

text \<open>
  C9: a self-follow of an id that is not in the index. The 404 raised by the existence
  check is caught by the handler's own catch-all clause, and the caller receives status
  500.
\<close>

theorem add_follow_missing_self_surfaces_500:
  "add_follow 7 7 \<lparr>docs = [], calls = []\<rparr> =
     (Inl (HTTPException 500 (Str (HTTPException 404 (Msg ''User not found'')))),
      \<lparr>docs = [], calls = [Exists 7]\<rparr>)"
  by (simp add: add_follow_def add_follow_try_def es_exists_def)

section \<open>Properties of the distance\<close>

text \<open>
  Over the reals the haversine sum lies between 0 and 1, so that without rounding neither
  square root raises and \<^verbatim>\<open>calculate_distance\<close> is the formula of the specification.
\<close>

lemma haversine_range:
  fixes u v w :: real
  defines "a \<equiv> (sin ((v - u) / 2))\<^sup>2 + cos u * cos v * (sin (w / 2))\<^sup>2"
  shows "0 \<le> a \<and> a \<le> 1"
proof -
  let ?X = "(sin ((v - u) / 2))\<^sup>2"
  let ?c = "cos u * cos v"
  let ?s = "(sin (w / 2))\<^sup>2"
  have X: "?X = (1 - cos (v - u)) / 2"
  proof -
    have e: "2 * ((v - u) / 2) = v - u" by argo
    have "cos (2 * ((v - u) / 2)) = 1 - 2 * ?X" by (rule cos_double_sin)
    then have "cos (v - u) = 1 - 2 * ?X" by (simp only: e)
    then show ?thesis by argo
  qed
  have Xc: "?X + ?c = (1 + cos (u + v)) / 2"
    by (simp add: X cos_diff cos_add field_simps)
  have X0: "0 \<le> ?X" and X1: "?X \<le> 1"
    by (simp_all add: abs_square_le_1)
  have s0: "0 \<le> ?s" and s1: "?s \<le> 1"
    by (simp_all add: abs_square_le_1)
  have lo: "- 1 \<le> cos (u + v)" by (rule cos_ge_minus_one)
  have hi: "cos (u + v) \<le> 1" by (rule cos_le_one)
  have Xc0: "0 \<le> ?X + ?c"
    unfolding Xc using lo by argo
  have Xc1: "?X + ?c \<le> 1"
    unfolding Xc using hi by argo
  show ?thesis
  proof (cases "0 \<le> ?c")
    case True
    then have "0 \<le> ?c * ?s" and "?c * ?s \<le> ?c"
      using s0 s1 by (simp_all add: mult_left_le)
    then show ?thesis using X0 Xc1 by (simp add: a_def)
  next
    case False
    then have neg: "?c \<le> 0" by simp
    have "?c * ?s \<le> 0"
      using neg s0 by (rule mult_nonpos_nonneg)
    moreover have "?c \<le> ?c * ?s"
      using mult_left_mono_neg [OF s1 neg] by simp
    ultimately show ?thesis using X1 Xc0 by (simp add: a_def)
  qed
qed

lemma calculate_distance_exact:
  "calculate_distance exact la1 lo1 la2 lo2 =
     Inr (greatCircle \<lparr>lon = lo1, lat = la1\<rparr> \<lparr>lon = lo2, lat = la2\<rparr>)"
proof -
  let ?a = "(sin ((la2 * pi / 180 - la1 * pi / 180) / 2))\<^sup>2
       + cos (la1 * pi / 180) * cos (la2 * pi / 180) * (sin ((lo2 * pi / 180 - lo1 * pi / 180) / 2))\<^sup>2"
  have "0 \<le> ?a \<and> ?a \<le> 1" by (rule haversine_range)
  then have "\<not> ?a < 0" and "\<not> 1 - ?a < 0" by simp_all
  then show ?thesis
    by (simp add: calculate_distance_def greatCircle_def math_sqrt_def Let_def exact_def)
qed



text \<open>
  The laws do not keep the haversine sum below 1: in the arithmetic \<open>coarse\<close>, which obeys
  them, the sum for two antipodal points on the equator is 2 and \<^verbatim>\<open>math.sqrt(1 - a)\<close>
  raises. In double precision the sum exceeds 1 for some pairs of points that are nearly
  antipodal.
\<close>

lemma symmetric_rounding_coarse: "symmetric_rounding coarse"
  by (simp add: symmetric_rounding_def coarse_def exact_def atan2_def)

lemma calculate_distance_coarse_raises:
  "calculate_distance coarse 0 0 0 180 = Inl ValueError"
  by (simp add: calculate_distance_def math_sqrt_def Let_def coarse_def exact_def)



section \<open>The gate of the matches\<close>

text \<open>
  C6: for an existing requester whose status is not single, each of the three variants of
  \<^verbatim>\<open>get_matches\<close> returns the empty list, and the log grows by the existence check and
  the read of the requester only: no search is issued.
\<close>

theorem get_matches_gate:
  assumes "map_of (docs s) i = Some d" and "doc_status d \<noteq> Some ''single''"
  shows "get_matches srt i s = (Inr [], s\<lparr>calls := calls s @ [Exists i, Get i]\<rparr>)
   \<and> get_matches_haversine fl i s = (Inr [], s\<lparr>calls := calls s @ [Exists i, Get i]\<rparr>)
   \<and> get_matches_planar fl i s = (Inr [], s\<lparr>calls := calls s @ [Exists i, Get i]\<rparr>)"
  using assms
  by (simp add: get_matches_def get_matches_try_def get_matches_haversine_def
      get_matches_haversine_try_def get_matches_planar_def get_matches_planar_try_def
      es_exists_def es_get_def)

text \<open>
  The gate at an index whose requester is married.
\<close>

theorem get_matches_gate_witness:
  "get_matches stable_store 1 index_married
     = (Inr [], index_married\<lparr>calls := [Exists 1, Get 1]\<rparr>)
   \<and> get_matches_haversine exact 1 index_married
     = (Inr [], index_married\<lparr>calls := [Exists 1, Get 1]\<rparr>)
   \<and> get_matches_planar exact 1 index_married
     = (Inr [], index_married\<lparr>calls := [Exists 1, Get 1]\<rparr>)"
  using get_matches_gate [of index_married 1
      "profile ''John'' ''male'' ''married'' [2] 0 0 [''reading'', ''hiking'']" stable_store exact]
  by (simp add: index_married_def profile_def)

section \<open>The order of the matches\<close>

lemma for_each_map:
  assumes "\<And>h. h \<in> set hs \<Longrightarrow> f h = Inr (g h)"
  shows "for_each f hs = Inr (map g hs)"
  using assms by (induction hs) simp_all

lemma for_each_fails:
  assumes "h \<in> set hs" and "isl (f h)"
  shows "isl (for_each f hs)"
  using assms by (induction hs) (auto split: sum.splits)

lemma insort_key_map:
  "insort_key k (g x) (map g xs) = map g (insort_key (\<lambda>y. k (g y)) x xs)"
  by (induction xs) simp_all

lemma sort_key_map:
  "sort_key k (map g xs) = map g (sort_key (\<lambda>y. k (g y)) xs)"
  by (induction xs) (simp_all add: insort_key_map)

lemma User_of_source_valid:
  assumes "valid_source d"
  shows "\<exists>u. User_of_source k d = Inr u"
  using assms
  by (auto simp: valid_source_def User_of_source_def mk_User_def split: option.splits)

lemma planar_distance_exact:
  "planar_distance exact user_doc h =
     Inr (sqrt ((get_x user_doc - get_x (snd h))\<^sup>2 + (get_y user_doc - get_y (snd h))\<^sup>2))"
  by (simp add: planar_distance_def exact_def)

lemma haversine_distance_exact:
  "haversine_distance exact user_doc h =
     Inr (greatCircle \<lparr>lon = get_x user_doc, lat = get_y user_doc\<rparr>
            \<lparr>lon = get_x (snd h), lat = get_y (snd h)\<rparr>)"
  by (simp add: haversine_distance_def calculate_distance_exact)

text \<open>
  A handler that scores every hit with \<open>f\<close> and sorts: the part common to both client-side
  variants.
\<close>

lemma scored_sorted:
  assumes valid: "list_all (\<lambda>(k, d). valid_source d) hits"
    and score: "\<And>h u. h \<in> set hits \<Longrightarrow> User_of_source (fst h) (snd h) = Inr u \<Longrightarrow>
        f h = Inr \<lparr>match_user = u, common_hobbies = c h, distance = r h\<rparr>"
  shows "\<exists>us.
      (case for_each f hits of
         Inl e \<Rightarrow> Inl e
       | Inr matches \<Rightarrow> Inr (map match_user (sort_key sort_key_of matches))) = Inr us
    \<and> map Inr us = map (\<lambda>(k, d). User_of_source k d)
                      (sort_key (\<lambda>h. (- int (c h), r h)) hits)"
proof -
  define g where "g h = \<lparr>match_user = projr (User_of_source (fst h) (snd h)),
      common_hobbies = c h, distance = r h\<rparr>" for h
  have ok: "User_of_source (fst h) (snd h) = Inr (match_user (g h)) \<and> f h = Inr (g h)"
    if "h \<in> set hits" for h
  proof -
    obtain k d where h: "h = (k, d)" by (cases h)
    from valid that have "valid_source d"
      by (auto simp: h list_all_iff)
    then obtain u where u: "User_of_source (fst h) (snd h) = Inr u"
      using User_of_source_valid [of d k] by (auto simp: h)
    then show ?thesis
      using score [OF that u] by (simp add: g_def)
  qed
  have fe: "for_each f hits = Inr (map g hits)"
    by (rule for_each_map) (simp add: ok)
  have key: "sort_key_of (g h) = (- int (c h), r h)" for h
    by (simp add: sort_key_of_def g_def)
  let ?hs = "sort_key (\<lambda>h. (- int (c h), r h)) hits"
  have sorted_ms: "sort_key sort_key_of (map g hits) = map g ?hs"
    by (simp add: sort_key_map key)
  have "map Inr (map (\<lambda>h. match_user (g h)) ?hs) = map (\<lambda>(k, d). User_of_source k d) ?hs"
    using ok by (auto simp: case_prod_beta)
  then show ?thesis
    by (intro exI [of _ "map (\<lambda>h. match_user (g h)) ?hs"])
       (simp add: fe sorted_ms comp_def)
qed

lemma score_haversine_eq:
  assumes "haversine_distance fl user_doc h = Inr (r h)"
    and "User_of_source (fst h) (snd h) = Inr u"
  shows "score_haversine fl user_doc h =
     Inr \<lparr>match_user = u, common_hobbies = common_interests user_doc h, distance = r h\<rparr>"
  using assms by (cases h) (simp add: score_haversine_def common_interests_def)

lemma score_planar_eq:
  assumes "planar_distance fl user_doc h = Inr (r h)"
    and "User_of_source (fst h) (snd h) = Inr u"
  shows "score_planar fl user_doc h =
     Inr \<lparr>match_user = u, common_hobbies = common_interests user_doc h, distance = r h\<rparr>"
  using assms by (cases h) (simp add: score_planar_def common_interests_def)

lemma get_matches_haversine_run:
  assumes "map_of (docs s) i = Some user_doc" and "doc_status user_doc = Some ''single''"
    and "list_all (\<lambda>(k, d). valid_source d) (fst (es_search i s))"
    and "\<And>h. h \<in> set (fst (es_search i s)) \<Longrightarrow> haversine_distance fl user_doc h = Inr (r h)"
  shows "\<exists>us. get_matches_haversine fl i s =
        (Inr us, s\<lparr>calls := calls s @ [Exists i, Get i, Search i]\<rparr>)
     \<and> map Inr us = map (\<lambda>(k, d). User_of_source k d)
                       (sort_key (scored_key user_doc r) (fst (es_search i s)))"
proof -
  let ?hits = "fst (es_search i s)"
  have "\<exists>us.
      (case for_each (score_haversine fl user_doc) ?hits of
         Inl e \<Rightarrow> Inl e
       | Inr matches \<Rightarrow> Inr (map match_user (sort_key sort_key_of matches))) = Inr us
    \<and> map Inr us = map (\<lambda>(k, d). User_of_source k d)
          (sort_key (\<lambda>h. (- int (common_interests user_doc h), r h)) ?hits)"
    by (rule scored_sorted [OF assms(3)]) (rule score_haversine_eq [OF assms(4)])
  then obtain us where
    run: "(case for_each (score_haversine fl user_doc) ?hits of
         Inl e \<Rightarrow> Inl e
       | Inr matches \<Rightarrow> Inr (map match_user (sort_key sort_key_of matches))) = Inr us"
    and us: "map Inr us = map (\<lambda>(k, d). User_of_source k d)
        (sort_key (\<lambda>h. (- int (common_interests user_doc h), r h)) ?hits)"
    by blast
  have "get_matches_haversine fl i s = (Inr us, s\<lparr>calls := calls s @ [Exists i, Get i, Search i]\<rparr>)"
    using assms(1,2) run
    by (auto simp: get_matches_haversine_def get_matches_haversine_try_def es_exists_def
        es_get_def es_search_def split: sum.splits)
  moreover have "(\<lambda>h. (- int (common_interests user_doc h), r h)) = scored_key user_doc r"
    by (simp add: scored_key_def fun_eq_iff)
  ultimately show ?thesis
    using us by auto
qed

lemma get_matches_planar_run:
  assumes "map_of (docs s) i = Some user_doc" and "doc_status user_doc = Some ''single''"
    and "list_all (\<lambda>(k, d). valid_source d) (fst (es_search i s))"
    and "\<And>h. h \<in> set (fst (es_search i s)) \<Longrightarrow> planar_distance fl user_doc h = Inr (r h)"
  shows "\<exists>us. get_matches_planar fl i s =
        (Inr us, s\<lparr>calls := calls s @ [Exists i, Get i, Search i]\<rparr>)
     \<and> map Inr us = map (\<lambda>(k, d). User_of_source k d)
                       (sort_key (scored_key user_doc r) (fst (es_search i s)))"
proof -
  let ?hits = "fst (es_search i s)"
  have "\<exists>us.
      (case for_each (score_planar fl user_doc) ?hits of
         Inl e \<Rightarrow> Inl e
       | Inr matches \<Rightarrow> Inr (map match_user (sort_key sort_key_of matches))) = Inr us
    \<and> map Inr us = map (\<lambda>(k, d). User_of_source k d)
          (sort_key (\<lambda>h. (- int (common_interests user_doc h), r h)) ?hits)"
    by (rule scored_sorted [OF assms(3)]) (rule score_planar_eq [OF assms(4)])
  then obtain us where
    run: "(case for_each (score_planar fl user_doc) ?hits of
         Inl e \<Rightarrow> Inl e
       | Inr matches \<Rightarrow> Inr (map match_user (sort_key sort_key_of matches))) = Inr us"
    and us: "map Inr us = map (\<lambda>(k, d). User_of_source k d)
        (sort_key (\<lambda>h. (- int (common_interests user_doc h), r h)) ?hits)"
    by blast
  have "get_matches_planar fl i s = (Inr us, s\<lparr>calls := calls s @ [Exists i, Get i, Search i]\<rparr>)"
    using assms(1,2) run
    by (auto simp: get_matches_planar_def get_matches_planar_try_def es_exists_def
        es_get_def es_search_def split: sum.splits)
  moreover have "(\<lambda>h. (- int (common_interests user_doc h), r h)) = scored_key user_doc r"
    by (simp add: scored_key_def fun_eq_iff)
  ultimately show ?thesis
    using us by auto
qed

text \<open>
  When the distance of some hit cannot be computed, the loop stops there and the call
  fails.
\<close>

lemma get_matches_haversine_fails:
  assumes "map_of (docs s) i = Some user_doc" and "doc_status user_doc = Some ''single''"
    and "h \<in> set (fst (es_search i s))" and "isl (haversine_distance fl user_doc h)"
  shows "isl (fst (get_matches_haversine fl i s))"
proof -
  have "isl (score_haversine fl user_doc h)"
    using assms(4) by (cases h) (auto simp: score_haversine_def split: sum.splits)
  with assms(3) have "isl (for_each (score_haversine fl user_doc) (fst (es_search i s)))"
    by (rule for_each_fails)
  then obtain e where "for_each (score_haversine fl user_doc) (fst (es_search i s)) = Inl e"
    by (auto simp: isl_def)
  then have "isl (fst (get_matches_haversine_try fl i s))"
    using assms(1,2)
    by (simp add: get_matches_haversine_try_def es_exists_def es_get_def es_search_def)
  then show ?thesis
    by (cases "get_matches_haversine_try fl i s" rule: handle.cases)
       (simp_all add: get_matches_haversine_def)
qed

text \<open>
  C1 (amended): for an existing single requester whose candidates validate as users and
  whose distances can all be computed, the haversine variant returns the users of the hits
  in an order that is a permutation of the search result, ascending in the key (-common,
  distance), where the distance of a hit is the number \<open>r\<close> that \<^verbatim>\<open>calculate_distance\<close>
  returns for it, and stable: hits with equal keys keep the order of the search result. The
  planar variant does the same with the distance \<open>r'\<close> that it computes in the coordinate
  plane. Evaluated without rounding, the distance of the haversine variant is the
  great-circle distance of the specification between the two positions, and that of the
  planar variant is the Euclidean distance between the two coordinate pairs.
\<close>

theorem get_matches_sorted:
  assumes "map_of (docs s) i = Some user_doc" and "doc_status user_doc = Some ''single''"
    and "list_all (\<lambda>(k, d). valid_source d) (fst (es_search i s))"
  shows "((\<forall>h \<in> set (fst (es_search i s)). haversine_distance fl user_doc h = Inr (r h)) \<longrightarrow>
      (\<exists>hs us. get_matches_haversine fl i s =
          (Inr us, s\<lparr>calls := calls s @ [Exists i, Get i, Search i]\<rparr>)
       \<and> map Inr us = map (\<lambda>(k, d). User_of_source k d) hs
       \<and> mset hs = mset (fst (es_search i s))
       \<and> sorted (map (scored_key user_doc r) hs)
       \<and> (\<forall>key. filter (\<lambda>h. scored_key user_doc r h = key) hs
                 = filter (\<lambda>h. scored_key user_doc r h = key) (fst (es_search i s)))))
   \<and> ((\<forall>h \<in> set (fst (es_search i s)). planar_distance fl user_doc h = Inr (r' h)) \<longrightarrow>
      (\<exists>hs us. get_matches_planar fl i s =
          (Inr us, s\<lparr>calls := calls s @ [Exists i, Get i, Search i]\<rparr>)
       \<and> map Inr us = map (\<lambda>(k, d). User_of_source k d) hs
       \<and> mset hs = mset (fst (es_search i s))
       \<and> sorted (map (scored_key user_doc r') hs)
       \<and> (\<forall>key. filter (\<lambda>h. scored_key user_doc r' h = key) hs
                 = filter (\<lambda>h. scored_key user_doc r' h = key) (fst (es_search i s)))))
   \<and> haversine_distance exact user_doc hit = Inr (snd (ranking_key user_doc hit))
   \<and> planar_distance exact user_doc hit =
       Inr (sqrt ((get_x user_doc - get_x (snd hit))\<^sup>2 + (get_y user_doc - get_y (snd hit))\<^sup>2))"
proof (intro conjI impI)
  assume "\<forall>h \<in> set (fst (es_search i s)). haversine_distance fl user_doc h = Inr (r h)"
  then have "\<exists>us. get_matches_haversine fl i s =
        (Inr us, s\<lparr>calls := calls s @ [Exists i, Get i, Search i]\<rparr>)
     \<and> map Inr us = map (\<lambda>(k, d). User_of_source k d)
                       (sort_key (scored_key user_doc r) (fst (es_search i s)))"
    by (intro get_matches_haversine_run assms) simp
  then obtain us where
    "get_matches_haversine fl i s = (Inr us, s\<lparr>calls := calls s @ [Exists i, Get i, Search i]\<rparr>)"
    "map Inr us = map (\<lambda>(k, d). User_of_source k d)
        (sort_key (scored_key user_doc r) (fst (es_search i s)))"
    by blast
  then show "\<exists>hs us. get_matches_haversine fl i s =
          (Inr us, s\<lparr>calls := calls s @ [Exists i, Get i, Search i]\<rparr>)
       \<and> map Inr us = map (\<lambda>(k, d). User_of_source k d) hs
       \<and> mset hs = mset (fst (es_search i s))
       \<and> sorted (map (scored_key user_doc r) hs)
       \<and> (\<forall>key. filter (\<lambda>h. scored_key user_doc r h = key) hs
                 = filter (\<lambda>h. scored_key user_doc r h = key) (fst (es_search i s)))"
    by (intro exI [of _ "sort_key (scored_key user_doc r) (fst (es_search i s))"] exI [of _ us])
       (simp add: sort_key_stable)
next
  assume "\<forall>h \<in> set (fst (es_search i s)). planar_distance fl user_doc h = Inr (r' h)"
  then have "\<exists>us. get_matches_planar fl i s =
        (Inr us, s\<lparr>calls := calls s @ [Exists i, Get i, Search i]\<rparr>)
     \<and> map Inr us = map (\<lambda>(k, d). User_of_source k d)
                       (sort_key (scored_key user_doc r') (fst (es_search i s)))"
    by (intro get_matches_planar_run assms) simp
  then obtain us where
    "get_matches_planar fl i s = (Inr us, s\<lparr>calls := calls s @ [Exists i, Get i, Search i]\<rparr>)"
    "map Inr us = map (\<lambda>(k, d). User_of_source k d)
        (sort_key (scored_key user_doc r') (fst (es_search i s)))"
    by blast
  then show "\<exists>hs us. get_matches_planar fl i s =
          (Inr us, s\<lparr>calls := calls s @ [Exists i, Get i, Search i]\<rparr>)
       \<and> map Inr us = map (\<lambda>(k, d). User_of_source k d) hs
       \<and> mset hs = mset (fst (es_search i s))
       \<and> sorted (map (scored_key user_doc r') hs)
       \<and> (\<forall>key. filter (\<lambda>h. scored_key user_doc r' h = key) hs
                 = filter (\<lambda>h. scored_key user_doc r' h = key) (fst (es_search i s)))"
    by (intro exI [of _ "sort_key (scored_key user_doc r') (fst (es_search i s))"] exI [of _ us])
       (simp add: sort_key_stable)
next
  show "haversine_distance exact user_doc hit = Inr (snd (ranking_key user_doc hit))"
    by (simp add: haversine_distance_exact ranking_key_def)
next
  show "planar_distance exact user_doc hit =
       Inr (sqrt ((get_x user_doc - get_x (snd hit))\<^sup>2 + (get_y user_doc - get_y (snd hit))\<^sup>2))"
    by (rule planar_distance_exact)
qed

section \<open>The order of the matches: examples\<close>

lemma index_match_run:
  "get_matches_haversine exact 1 index_match =
     (Inr [\<lparr>user_id = Some 2, user_name = ''Xena'', user_gender = female, user_status = single,
            user_following = [], user_location = \<lparr>lon = 0, lat = 1\<rparr>\<rparr>,
           \<lparr>user_id = Some 3, user_name = ''Yara'', user_gender = female, user_status = single,
            user_following = [], user_location = \<lparr>lon = 0, lat = 1 / 100\<rparr>\<rparr>],
      index_match\<lparr>calls := [Exists 1, Get 1, Search 1]\<rparr>)"
  by (simp add: get_matches_haversine_def get_matches_haversine_try_def es_exists_def
      es_get_def es_search_def index_match_def profile_def score_haversine_def
      haversine_distance_exact User_of_source_def mk_User_def Gender_of_def Status_of_def
      source_location_def get_hobbies_def get_x_def get_y_def sort_key_of_def)

lemma index_match_planar_run:
  "get_matches_planar exact 1 index_match =
     (Inr [\<lparr>user_id = Some 2, user_name = ''Xena'', user_gender = female, user_status = single,
            user_following = [], user_location = \<lparr>lon = 0, lat = 1\<rparr>\<rparr>,
           \<lparr>user_id = Some 3, user_name = ''Yara'', user_gender = female, user_status = single,
            user_following = [], user_location = \<lparr>lon = 0, lat = 1 / 100\<rparr>\<rparr>],
      index_match\<lparr>calls := [Exists 1, Get 1, Search 1]\<rparr>)"
  by (simp add: get_matches_planar_def get_matches_planar_try_def es_exists_def
      es_get_def es_search_def index_match_def profile_def score_planar_def
      planar_distance_exact User_of_source_def mk_User_def Gender_of_def Status_of_def
      source_location_def get_hobbies_def get_x_def get_y_def sort_key_of_def)

lemma greatCircle_pole_pole:
  "greatCircle \<lparr>lon = 0, lat = 90\<rparr> \<lparr>lon = 180, lat = 90\<rparr> = 0"
  by (simp add: greatCircle_def atan2_def)

lemma atan2_pos: "0 < v \<Longrightarrow> 0 < u \<Longrightarrow> 0 < atan2 v u"
  by (simp add: atan2_def zero_less_arctan_iff)

lemma greatCircle_pole_equator:
  "0 < greatCircle \<lparr>lon = 0, lat = 90\<rparr> \<lparr>lon = 0, lat = 0\<rparr>"
proof -
  have gc: "greatCircle \<lparr>lon = 0, lat = 90\<rparr> \<lparr>lon = 0, lat = 0\<rparr>
      = 2 * 6371 * atan2 \<bar>sin (pi / 4)\<bar> (sqrt (1 - (sin (pi / 4))\<^sup>2))"
    by (simp add: greatCircle_def)
  have sq: "(sin (pi / 4))\<^sup>2 = 1 / 2"
    by (simp add: sin_45 power_divide)
  have "0 < sin (pi / 4)"
    by (simp add: sin_45)
  then have v: "0 < \<bar>sin (pi / 4)\<bar>" by simp
  have u: "0 < sqrt (1 - (sin (pi / 4))\<^sup>2)"
    by (simp add: sq)
  show ?thesis
    using atan2_pos [OF v u] by (simp add: gc)
qed

lemma index_polar_run:
  "get_matches_planar exact 1 index_polar =
     (Inr [\<lparr>user_id = Some 3, user_name = ''Carl'', user_gender = male, user_status = single,
            user_following = [], user_location = \<lparr>lon = 0, lat = 0\<rparr>\<rparr>,
           \<lparr>user_id = Some 2, user_name = ''Bob'', user_gender = male, user_status = single,
            user_following = [], user_location = \<lparr>lon = 180, lat = 90\<rparr>\<rparr>],
      index_polar\<lparr>calls := [Exists 1, Get 1, Search 1]\<rparr>)"
  by (simp add: get_matches_planar_def get_matches_planar_try_def es_exists_def
      es_get_def es_search_def index_polar_def profile_def score_planar_def
      planar_distance_exact User_of_source_def mk_User_def Gender_of_def Status_of_def
      source_location_def get_hobbies_def get_x_def get_y_def sort_key_of_def)

text \<open>
  The example of the specification, in the arithmetic that does not round: X shares two
  interests and is farther, Y shares one and is nearer and comes first in the index; the
  result of either variant is X, then Y.
\<close>

theorem get_matches_sorted_witness:
  "get_matches_haversine exact 1 index_match =
     (Inr [\<lparr>user_id = Some 2, user_name = ''Xena'', user_gender = female, user_status = single,
            user_following = [], user_location = \<lparr>lon = 0, lat = 1\<rparr>\<rparr>,
           \<lparr>user_id = Some 3, user_name = ''Yara'', user_gender = female, user_status = single,
            user_following = [], user_location = \<lparr>lon = 0, lat = 1 / 100\<rparr>\<rparr>],
      index_match\<lparr>calls := [Exists 1, Get 1, Search 1]\<rparr>)
   \<and> get_matches_planar exact 1 index_match =
     (Inr [\<lparr>user_id = Some 2, user_name = ''Xena'', user_gender = female, user_status = single,
            user_following = [], user_location = \<lparr>lon = 0, lat = 1\<rparr>\<rparr>,
           \<lparr>user_id = Some 3, user_name = ''Yara'', user_gender = female, user_status = single,
            user_following = [], user_location = \<lparr>lon = 0, lat = 1 / 100\<rparr>\<rparr>],
      index_match\<lparr>calls := [Exists 1, Get 1, Search 1]\<rparr>)"
proof -
  let ?d = "profile ''John'' ''male'' ''single'' [] 0 0 [''reading'', ''hiking'']"
  let ?r = "\<lambda>h. greatCircle \<lparr>lon = get_x ?d, lat = get_y ?d\<rparr>
      \<lparr>lon = get_x (snd h), lat = get_y (snd h)\<rparr>"
  let ?r' = "\<lambda>h. sqrt ((get_x ?d - get_x (snd h))\<^sup>2 + (get_y ?d - get_y (snd h))\<^sup>2)"
  have h1: "map_of (docs index_match) 1 = Some ?d"
    by (simp add: index_match_def)
  have h2: "doc_status ?d = Some ''single''"
    by (simp add: profile_def)
  have h3: "list_all (\<lambda>(k, d). valid_source d) (fst (es_search 1 index_match))"
    by (simp add: es_search_def index_match_def profile_def valid_source_def Gender_of_def
        Status_of_def)
  have h4: "\<forall>h \<in> set (fst (es_search 1 index_match)). haversine_distance exact ?d h = Inr (?r h)"
    by (simp add: haversine_distance_exact)
  have h5: "\<forall>h \<in> set (fst (es_search 1 index_match)). planar_distance exact ?d h = Inr (?r' h)"
    by (simp add: planar_distance_exact)
  show ?thesis
    using get_matches_sorted [OF h1 h2 h3, where fl = exact and r = ?r and r' = ?r'] h4 h5
      index_match_run index_match_planar_run
    by simp
qed

text \<open>
  C1 as stated fails for the planar variant: seen from the pole, Bob (at the pole, on
  another meridian) is at great-circle distance zero and Carl (on the equator) is a quarter
  of the globe away, yet the variant returns Carl first, at 90 in the plane against 180.
\<close>

theorem get_matches_planar_counterexample:
  "get_matches_planar exact 1 index_polar =
     (Inr [\<lparr>user_id = Some 3, user_name = ''Carl'', user_gender = male, user_status = single,
            user_following = [], user_location = \<lparr>lon = 0, lat = 0\<rparr>\<rparr>,
           \<lparr>user_id = Some 2, user_name = ''Bob'', user_gender = male, user_status = single,
            user_following = [], user_location = \<lparr>lon = 180, lat = 90\<rparr>\<rparr>],
      index_polar\<lparr>calls := [Exists 1, Get 1, Search 1]\<rparr>)
   \<and> planar_distance exact (profile ''Ann'' ''female'' ''single'' [] 0 90 [])
        (3, profile ''Carl'' ''male'' ''single'' [] 0 0 []) = Inr 90
   \<and> planar_distance exact (profile ''Ann'' ''female'' ''single'' [] 0 90 [])
        (2, profile ''Bob'' ''male'' ''single'' [] 180 90 []) = Inr 180
   \<and> ranking_key (profile ''Ann'' ''female'' ''single'' [] 0 90 [])
        (2, profile ''Bob'' ''male'' ''single'' [] 180 90 [])
     < ranking_key (profile ''Ann'' ''female'' ''single'' [] 0 90 [])
        (3, profile ''Carl'' ''male'' ''single'' [] 0 0 [])"
  using greatCircle_pole_equator
  by (simp add: index_polar_run ranking_key_def common_interests_def profile_def get_x_def
      get_y_def get_hobbies_def greatCircle_pole_pole planar_distance_exact)

section \<open>Properties of the suggestion traversal\<close>

lemma collect_suggested_result:
  "\<exists>ids s'. collect_suggested fs acc s = (Inr ids, s') \<and> docs s' = docs s
      \<and> set ids = set acc \<union> second_degree (docs s) fs
      \<and> distinct ids = distinct acc"
proof (induction fs arbitrary: acc s)
  case Nil
  then show ?case by (simp add: second_degree_def)
next
  case (Cons f fs)
  show ?case
  proof (cases "map_of (docs s) f")
    case None
    let ?s1 = "s\<lparr>calls := calls s @ [Exists f]\<rparr>"
    from Cons.IH [of acc ?s1] obtain ids s' where
      "collect_suggested fs acc ?s1 = (Inr ids, s')" "docs s' = docs s"
      "set ids = set acc \<union> second_degree (docs s) fs" "distinct ids = distinct acc"
      by auto
    with None show ?thesis
      by (simp add: es_exists_def second_degree_def)
  next
    case (Some d)
    let ?s2 = "s\<lparr>calls := calls s @ [Exists f, Get f]\<rparr>"
    from Cons.IH [of "List.union (get_following d) acc" ?s2] obtain ids s' where
      "collect_suggested fs (List.union (get_following d) acc) ?s2 = (Inr ids, s')"
      "docs s' = docs s"
      "set ids = set (List.union (get_following d) acc) \<union> second_degree (docs s) fs"
      "distinct ids = distinct (List.union (get_following d) acc)"
      by auto
    with Some show ?thesis
      by (auto simp: es_exists_def es_get_def second_degree_def)
  qed
qed

lemma discard_all_set:
  "set (discard_all i fs ids) = set ids - {i} - set fs"
proof -
  have "set (fold removeAll fs xs) = set xs - set fs" for xs :: "int list"
    by (induction fs arbitrary: xs) auto
  then show ?thesis by (auto simp: discard_all_def)
qed

lemma discard_all_distinct:
  "distinct ids \<Longrightarrow> distinct (discard_all i fs ids)"
proof -
  assume ids: "distinct ids"
  have aux: "distinct xs \<Longrightarrow> distinct (fold removeAll fs xs)" for xs :: "int list"
    by (induction fs arbitrary: xs) (simp_all add: distinct_removeAll)
  show ?thesis
    unfolding discard_all_def by (rule aux) (simp add: ids distinct_removeAll)
qed

lemma fetch_each_result:
  assumes "\<And>sid d. sid \<in> set ids \<Longrightarrow> map_of (docs s) sid = Some d \<Longrightarrow> f sid d = Inr [g sid d]"
  shows "\<exists>s'. fetch_each f ids s =
        (Inr (map (\<lambda>sid. g sid (the (map_of (docs s) sid)))
                (filter (\<lambda>sid. map_of (docs s) sid \<noteq> None) ids)), s')
      \<and> docs s' = docs s"
  using assms
proof (induction ids arbitrary: s)
  case Nil
  then show ?case by simp
next
  case (Cons sid ids)
  show ?case
  proof (cases "map_of (docs s) sid")
    case None
    let ?s1 = "s\<lparr>calls := calls s @ [Exists sid]\<rparr>"
    have "\<exists>s'. fetch_each f ids ?s1 =
        (Inr (map (\<lambda>sid. g sid (the (map_of (docs ?s1) sid)))
                (filter (\<lambda>sid. map_of (docs ?s1) sid \<noteq> None) ids)), s')
      \<and> docs s' = docs ?s1"
      by (rule Cons.IH) (simp add: Cons.prems)
    with None show ?thesis
      by (auto simp: es_exists_def)
  next
    case (Some d)
    let ?s2 = "s\<lparr>calls := calls s @ [Exists sid, Get sid]\<rparr>"
    have "\<exists>s'. fetch_each f ids ?s2 =
        (Inr (map (\<lambda>sid. g sid (the (map_of (docs ?s2) sid)))
                (filter (\<lambda>sid. map_of (docs ?s2) sid \<noteq> None) ids)), s')
      \<and> docs s' = docs ?s2"
      by (rule Cons.IH) (simp add: Cons.prems)
    moreover have "f sid d = Inr [g sid d]"
      using Cons.prems [of sid d] Some by simp
    ultimately show ?thesis
      using Some by (auto simp: es_exists_def es_get_def)
  qed
qed

lemma suggestion_of_valid:
  assumes "valid_suggestion d"
  shows "\<exists>u. suggestion_of sid d = Inr [u] \<and> user_id u = Some sid \<and> user_following u = []"
  using assms
  by (auto simp: valid_suggestion_def suggestion_of_def convert_location_def mk_User_def
      Location_of_loc_def bind_eq_Some_conv split: option.splits loc.splits)

lemma user_suggestion_of_valid:
  assumes "valid_user_suggestion d"
  shows "\<exists>u. user_suggestion_of sid d = Inr [u] \<and> suggestion_id u = sid"
  using assms
  by (auto simp: valid_user_suggestion_def user_suggestion_of_def bind_eq_Some_conv
      split: option.splits)

section \<open>What the suggestions are\<close>

text \<open>
  The traversal shared by the suggestion handlers, for any way \<open>f\<close> of building one
  result from a candidate's document.
\<close>

lemma traverse_result:
  assumes doc: "map_of (docs s) i = Some user_doc"
    and ok: "\<And>sid d. map_of (docs s) sid = Some d \<Longrightarrow> \<exists>u. f sid d = Inr [u] \<and> key u = k sid"
  shows "\<exists>cs us s'.
      handle (case es_exists i s of (e1, s1) \<Rightarrow>
        if \<not> e1 then (Inl (HTTPException 404 (Msg ''User not found'')), s1)
        else case es_get i s1 of
          (Inl e, s2) \<Rightarrow> (Inl e, s2)
        | (Inr user_doc, s2) \<Rightarrow>
            (case collect_suggested (get_following user_doc) [] s2 of
               (Inl e, s3) \<Rightarrow> (Inl e, s3)
             | (Inr suggested_ids, s3) \<Rightarrow>
                 fetch_each f (discard_all i (get_following user_doc) suggested_ids) s3))
        = (Inr us, s')
    \<and> docs s' = docs s
    \<and> distinct cs
    \<and> set cs = {c \<in> second_degree (docs s) (get_following user_doc).
                  c \<noteq> i \<and> c \<notin> set (get_following user_doc) \<and> map_of (docs s) c \<noteq> None}
    \<and> map key us = map k cs
    \<and> map (\<lambda>u. Some (Inr [u])) us = map (\<lambda>c. map_option (f c) (map_of (docs s) c)) cs"
proof -
  let ?F = "get_following user_doc"
  let ?s2 = "s\<lparr>calls := calls s @ [Exists i, Get i]\<rparr>"
  define g where "g sid d = hd (projr (f sid d))" for sid d
  have fg: "f sid d = Inr [g sid d] \<and> key (g sid d) = k sid" if "map_of (docs s) sid = Some d" for sid d
    using ok [OF that] by (auto simp: g_def)
  obtain ids s3 where col: "collect_suggested ?F [] ?s2 = (Inr ids, s3)"
    and d3: "docs s3 = docs s" and ids: "set ids = second_degree (docs s) ?F"
    and dist: "distinct ids"
    using collect_suggested_result [of ?F "[]" ?s2] by auto
  let ?cand = "discard_all i ?F ids"
  let ?cs = "filter (\<lambda>sid. map_of (docs s) sid \<noteq> None) ?cand"
  let ?us = "map (\<lambda>sid. g sid (the (map_of (docs s) sid))) ?cs"
  have "\<exists>s'. fetch_each f ?cand s3 =
        (Inr (map (\<lambda>sid. g sid (the (map_of (docs s3) sid)))
                (filter (\<lambda>sid. map_of (docs s3) sid \<noteq> None) ?cand)), s')
      \<and> docs s' = docs s3"
    by (rule fetch_each_result) (simp add: d3 fg)
  then obtain s' where fetch: "fetch_each f ?cand s3 = (Inr ?us, s')" and d': "docs s' = docs s"
    by (auto simp: d3)
  have run: "handle (case es_exists i s of (e1, s1) \<Rightarrow>
        if \<not> e1 then (Inl (HTTPException 404 (Msg ''User not found'')), s1)
        else case es_get i s1 of
          (Inl e, s2) \<Rightarrow> (Inl e, s2)
        | (Inr user_doc, s2) \<Rightarrow>
            (case collect_suggested (get_following user_doc) [] s2 of
               (Inl e, s3) \<Rightarrow> (Inl e, s3)
             | (Inr suggested_ids, s3) \<Rightarrow>
                 fetch_each f (discard_all i (get_following user_doc) suggested_ids) s3))
        = (Inr ?us, s')"
    using doc by (simp add: es_exists_def es_get_def col fetch)
  have c1: "distinct ?cs"
    using dist by (simp add: discard_all_distinct)
  have c2: "set ?cs = {c \<in> second_degree (docs s) ?F.
                  c \<noteq> i \<and> c \<notin> set ?F \<and> map_of (docs s) c \<noteq> None}"
    by (auto simp: discard_all_set ids)
  have c3: "map key ?us = map k ?cs"
  proof -
    have "key (g sid (the (map_of (docs s) sid))) = k sid" if "sid \<in> set ?cs" for sid
      using that fg [of sid] by auto
    then have "map (\<lambda>sid. key (g sid (the (map_of (docs s) sid)))) ?cs = map k ?cs"
      by (rule map_cong [OF refl])
    then show ?thesis
      by (simp add: comp_def)
  qed
  have c4: "map (\<lambda>u. Some (Inr [u])) ?us = map (\<lambda>c. map_option (f c) (map_of (docs s) c)) ?cs"
  proof -
    have "Some (Inr [g sid (the (map_of (docs s) sid))]) = map_option (f sid) (map_of (docs s) sid)"
      if "sid \<in> set ?cs" for sid
      using that fg [of sid] by auto
    then have "map (\<lambda>sid. Some (Inr [g sid (the (map_of (docs s) sid))])) ?cs
        = map (\<lambda>c. map_option (f c) (map_of (docs s) c)) ?cs"
      by (rule map_cong [OF refl])
    then show ?thesis
      by (simp add: comp_def)
  qed
  show ?thesis
    using run d' c1 c2 c3 c4 by blast
qed

text \<open>
  C2: for an existing user with following list F, in an index whose documents validate,
  the suggestion handlers of routes/suggestions.py and of main.py succeed, leave the
  documents unchanged and return one profile for each id of a duplicate-free list whose
  members are exactly the ids that an existing member of F follows, other than the user
  itself and the members of F, and that exist in the index; each profile is the one built
  from the document stored under its id. Ids that do not exist are left out without an
  error.
\<close>

theorem get_user_suggestions_exact:
  assumes "map_of (docs s) i = Some user_doc"
  shows "(list_all (\<lambda>(k, d). valid_suggestion d) (docs s) \<longrightarrow>
      (\<exists>cs us s'. get_user_suggestions i s = (Inr us, s')
        \<and> docs s' = docs s
        \<and> distinct cs
        \<and> set cs = {c \<in> second_degree (docs s) (get_following user_doc).
                      c \<noteq> i \<and> c \<notin> set (get_following user_doc) \<and> map_of (docs s) c \<noteq> None}
        \<and> map user_id us = map Some cs
        \<and> map (\<lambda>u. Some (Inr [u])) us
            = map (\<lambda>c. map_option (suggestion_of c) (map_of (docs s) c)) cs))
   \<and> (list_all (\<lambda>(k, d). valid_user_suggestion d) (docs s) \<longrightarrow>
      (\<exists>cs us s'. get_user_suggestions_main i s = (Inr us, s')
        \<and> docs s' = docs s
        \<and> distinct cs
        \<and> set cs = {c \<in> second_degree (docs s) (get_following user_doc).
                      c \<noteq> i \<and> c \<notin> set (get_following user_doc) \<and> map_of (docs s) c \<noteq> None}
        \<and> map suggestion_id us = map (\<lambda>c. c) cs
        \<and> map (\<lambda>u. Some (Inr [u])) us
            = map (\<lambda>c. map_option (user_suggestion_of c) (map_of (docs s) c)) cs))"
proof (intro conjI impI)
  assume valid: "list_all (\<lambda>(k, d). valid_suggestion d) (docs s)"
  have "\<exists>u. suggestion_of sid d = Inr [u] \<and> user_id u = Some sid"
    if "map_of (docs s) sid = Some d" for sid d
  proof -
    from that have "(sid, d) \<in> set (docs s)" by (rule map_of_SomeD)
    with valid have "valid_suggestion d" by (auto simp: list_all_iff)
    then show ?thesis using suggestion_of_valid by blast
  qed
  from traverse_result [where f = suggestion_of and key = user_id and k = Some, OF assms this]
  show "\<exists>cs us s'. get_user_suggestions i s = (Inr us, s')
        \<and> docs s' = docs s
        \<and> distinct cs
        \<and> set cs = {c \<in> second_degree (docs s) (get_following user_doc).
                      c \<noteq> i \<and> c \<notin> set (get_following user_doc) \<and> map_of (docs s) c \<noteq> None}
        \<and> map user_id us = map Some cs
        \<and> map (\<lambda>u. Some (Inr [u])) us
            = map (\<lambda>c. map_option (suggestion_of c) (map_of (docs s) c)) cs"
    by (simp add: get_user_suggestions_def get_user_suggestions_try_def)
next
  assume valid: "list_all (\<lambda>(k, d). valid_user_suggestion d) (docs s)"
  have "\<exists>u. user_suggestion_of sid d = Inr [u] \<and> suggestion_id u = sid"
    if "map_of (docs s) sid = Some d" for sid d
  proof -
    from that have "(sid, d) \<in> set (docs s)" by (rule map_of_SomeD)
    with valid have "valid_user_suggestion d" by (auto simp: list_all_iff)
    then show ?thesis using user_suggestion_of_valid by blast
  qed
  from traverse_result [where f = user_suggestion_of and key = suggestion_id and k = "\<lambda>c. c",
      OF assms this]
  show "\<exists>cs us s'. get_user_suggestions_main i s = (Inr us, s')
        \<and> docs s' = docs s
        \<and> distinct cs
        \<and> set cs = {c \<in> second_degree (docs s) (get_following user_doc).
                      c \<noteq> i \<and> c \<notin> set (get_following user_doc) \<and> map_of (docs s) c \<noteq> None}
        \<and> map suggestion_id us = map (\<lambda>c. c) cs
        \<and> map (\<lambda>u. Some (Inr [u])) us
            = map (\<lambda>c. map_option (user_suggestion_of c) (map_of (docs s) c)) cs"
    by (simp add: get_user_suggestions_main_def get_user_suggestions_main_try_def)
qed

section \<open>Suggestions: examples and the following list\<close>

lemma index_suggest_run:
  "get_user_suggestions 1 index_suggest =
     (Inr [\<lparr>user_id = Some 3, user_name = ''Bea'', user_gender = female, user_status = single,
            user_following = [], user_location = \<lparr>lon = 2, lat = 2\<rparr>\<rparr>],
      index_suggest\<lparr>calls := [Exists 1, Get 1, Exists 2, Get 2, Exists 9, Exists 3, Get 3]\<rparr>)"
  by (simp add: get_user_suggestions_def get_user_suggestions_try_def es_exists_def es_get_def
      index_suggest_def profile_def get_following_def discard_all_def List.union_def
      List.insert_def suggestion_of_def convert_location_def mk_User_def Gender_of_def
      Status_of_def Location_of_loc_def)

lemma index_suggest_xy_run:
  "get_user_suggestions_main 1 index_suggest_xy =
     (Inr [\<lparr>suggestion_id = 3, suggestion_gender = female, suggestion_status = married,
            suggestion_location = (2, 2)\<rparr>],
      index_suggest_xy\<lparr>calls := [Exists 1, Get 1, Exists 2, Get 2, Exists 9, Exists 3, Get 3]\<rparr>)"
  by (simp add: get_user_suggestions_main_def get_user_suggestions_main_try_def es_exists_def
      es_get_def index_suggest_xy_def profile_xy_def get_following_def discard_all_def
      List.union_def List.insert_def user_suggestion_of_def Gender_of_def Status_of_def
      xy_of_loc_def)

text \<open>
  The example of the specification: U follows A, and A follows B, U and an id that no
  longer exists; the suggestions are exactly B.
\<close>

theorem get_user_suggestions_exact_witness:
  "get_user_suggestions 1 index_suggest =
     (Inr [\<lparr>user_id = Some 3, user_name = ''Bea'', user_gender = female, user_status = single,
            user_following = [], user_location = \<lparr>lon = 2, lat = 2\<rparr>\<rparr>],
      index_suggest\<lparr>calls := [Exists 1, Get 1, Exists 2, Get 2, Exists 9, Exists 3, Get 3]\<rparr>)
   \<and> get_user_suggestions_main 1 index_suggest_xy =
     (Inr [\<lparr>suggestion_id = 3, suggestion_gender = female, suggestion_status = married,
            suggestion_location = (2, 2)\<rparr>],
      index_suggest_xy\<lparr>calls := [Exists 1, Get 1, Exists 2, Get 2, Exists 9, Exists 3, Get 3]\<rparr>)"
proof -
  have h1: "map_of (docs index_suggest) 1 = Some (profile ''Uma'' ''female'' ''single'' [2] 0 0 [])"
    by (simp add: index_suggest_def)
  have v1: "list_all (\<lambda>(k, d). valid_suggestion d) (docs index_suggest)"
    by (simp add: index_suggest_def profile_def valid_suggestion_def Gender_of_def Status_of_def)
  have h2: "map_of (docs index_suggest_xy) 1 = Some (profile_xy ''female'' ''single'' [2] 0 0)"
    by (simp add: index_suggest_xy_def)
  have v2: "list_all (\<lambda>(k, d). valid_user_suggestion d) (docs index_suggest_xy)"
    by (simp add: index_suggest_xy_def profile_xy_def valid_user_suggestion_def Gender_of_def
        Status_of_def xy_of_loc_def)
  show ?thesis
    using get_user_suggestions_exact [OF h1] get_user_suggestions_exact [OF h2] v1 v2
      index_suggest_run index_suggest_xy_run
    by simp
qed

lemma fetch_each_all:
  assumes "\<And>sid d vs. f sid d = Inr vs \<Longrightarrow> list_all P vs"
    and "fetch_each f ids s = (Inr us, s')"
  shows "list_all P us"
  using assms(2)
proof (induction ids arbitrary: s us s')
  case Nil
  then show ?case by simp
next
  case (Cons sid ids)
  show ?case
  proof (cases "map_of (docs s) sid")
    case None
    with Cons.prems have "fetch_each f ids (s\<lparr>calls := calls s @ [Exists sid]\<rparr>) = (Inr us, s')"
      by (simp add: es_exists_def)
    then show ?thesis by (rule Cons.IH)
  next
    case (Some d)
    let ?s2 = "s\<lparr>calls := calls s @ [Exists sid, Get sid]\<rparr>"
    from Cons.prems Some obtain vs others where
      vs: "f sid d = Inr vs" and rest: "fetch_each f ids ?s2 = (Inr others, s')"
      and us: "us = vs @ others"
      by (auto simp: es_exists_def es_get_def split: sum.splits prod.splits)
    from rest have "list_all P others" by (rule Cons.IH)
    moreover from vs have "list_all P vs" by (rule assms(1))
    ultimately show ?thesis by (simp add: us)
  qed
qed

lemma suggestion_of_following:
  assumes "suggestion_of sid d = Inr vs"
  shows "list_all (\<lambda>u. user_following u = []) vs"
  using assms
  by (auto simp: suggestion_of_def mk_User_def split: sum.splits option.splits if_splits)

lemma single_suggestion_of_following:
  assumes "single_suggestion_of sid d = Inr vs"
  shows "list_all (\<lambda>u. user_following u = []) vs"
  using assms suggestion_of_following [of sid d vs]
  by (auto simp: single_suggestion_of_def split: if_splits)

lemma handle_InrD: "handle p = (Inr v, s') \<Longrightarrow> p = (Inr v, s')"
  by (cases p rule: handle.cases) simp_all

text \<open>
  C10: every profile returned by the status-aware suggestion handler, and by the handler
  of routes/suggestions.py, has an empty following list, whatever the candidate's document
  stores.
\<close>

theorem suggestions_hide_following:
  "(get_user_suggestions_single i s = (Inr us, s') \<longrightarrow> list_all (\<lambda>u. user_following u = []) us)
   \<and> (get_user_suggestions i s = (Inr us, s') \<longrightarrow> list_all (\<lambda>u. user_following u = []) us)"
proof (intro conjI impI)
  assume "get_user_suggestions_single i s = (Inr us, s')"
  then have "get_user_suggestions_single_try i s = (Inr us, s')"
    unfolding get_user_suggestions_single_def by (rule handle_InrD)
  then consider "us = []"
    | ids s3 where "fetch_each single_suggestion_of ids s3 = (Inr us, s')"
    by (auto simp: get_user_suggestions_single_try_def es_exists_def es_get_def
        split: if_splits sum.splits prod.splits option.splits)
  then show "list_all (\<lambda>u. user_following u = []) us"
  proof cases
    case 1
    then show ?thesis by simp
  next
    case 2
    show ?thesis
      by (rule fetch_each_all [OF single_suggestion_of_following 2])
  qed
next
  assume "get_user_suggestions i s = (Inr us, s')"
  then have "get_user_suggestions_try i s = (Inr us, s')"
    unfolding get_user_suggestions_def by (rule handle_InrD)
  then obtain ids s3 where fe: "fetch_each suggestion_of ids s3 = (Inr us, s')"
    by (auto simp: get_user_suggestions_try_def es_exists_def es_get_def
        split: if_splits sum.splits prod.splits option.splits)
  show "list_all (\<lambda>u. user_following u = []) us"
    by (rule fetch_each_all [OF suggestion_of_following fe])
qed

lemma index_suggest_single_run:
  "get_user_suggestions_single 1 index_suggest =
     (Inr [\<lparr>user_id = Some 3, user_name = ''Bea'', user_gender = female, user_status = single,
            user_following = [], user_location = \<lparr>lon = 2, lat = 2\<rparr>\<rparr>],
      index_suggest\<lparr>calls := [Exists 1, Get 1, Exists 2, Get 2, Exists 9, Exists 3, Get 3]\<rparr>)"
  by (simp add: get_user_suggestions_single_def get_user_suggestions_single_try_def
      es_exists_def es_get_def index_suggest_def profile_def get_following_def discard_all_def
      List.union_def List.insert_def single_suggestion_of_def suggestion_of_def
      convert_location_def mk_User_def Gender_of_def Status_of_def Location_of_loc_def)

text \<open>
  The candidate B follows two users in the index; the suggestion returned for B has an
  empty following list.
\<close>

theorem suggestions_hide_following_witness:
  "get_user_suggestions_single 1 index_suggest =
     (Inr [\<lparr>user_id = Some 3, user_name = ''Bea'', user_gender = female, user_status = single,
            user_following = [], user_location = \<lparr>lon = 2, lat = 2\<rparr>\<rparr>],
      index_suggest\<lparr>calls := [Exists 1, Get 1, Exists 2, Get 2, Exists 9, Exists 3, Get 3]\<rparr>)
   \<and> map_option doc_following (map_of (docs index_suggest) 3) = Some (Some [1, 2])
   \<and> list_all (\<lambda>u. user_following u = [])
       [\<lparr>user_id = Some 3, user_name = ''Bea'', user_gender = female, user_status = single,
         user_following = [], user_location = \<lparr>lon = 2, lat = 2\<rparr>\<rparr>]"
  using suggestions_hide_following [of 1 index_suggest
      "[\<lparr>user_id = Some 3, user_name = ''Bea'', user_gender = female, user_status = single,
         user_following = [], user_location = \<lparr>lon = 2, lat = 2\<rparr>\<rparr>]"
      "index_suggest\<lparr>calls := [Exists 1, Get 1, Exists 2, Get 2, Exists 9, Exists 3, Get 3]\<rparr>"]
    index_suggest_single_run
  by (simp add: index_suggest_def profile_def)

section \<open>The formulations of the matches compared\<close>

lemma script_common_distinct:
  assumes "distinct user_hobbies"
  shows "script_common user_hobbies d = card (set user_hobbies \<inter> set (get_hobbies d))"
proof -
  have "set (filter (\<lambda>hobby. hobby \<in> set (get_hobbies d)) user_hobbies)
      = set user_hobbies \<inter> set (get_hobbies d)"
    by auto
  moreover have "distinct (filter (\<lambda>hobby. hobby \<in> set (get_hobbies d)) user_hobbies)"
    using assms by simp
  ultimately show ?thesis
    unfolding script_common_def by (metis distinct_card)
qed

lemma get_matches_run:
  assumes "map_of (docs s) i = Some user_doc" and "doc_status user_doc = Some ''single''"
    and "list_all (\<lambda>(k, d). valid_source d)
          (fst (es_search_sorted srt i (get_hobbies user_doc) (get_x user_doc) (get_y user_doc) s))"
  shows "\<exists>us. get_matches srt i s =
        (Inr us, s\<lparr>calls := calls s @ [Exists i, Get i,
            Search_sorted i (get_hobbies user_doc) (get_x user_doc) (get_y user_doc)]\<rparr>)
     \<and> map Inr us = map (\<lambda>(k, d). User_of_source k d)
          (fst (es_search_sorted srt i (get_hobbies user_doc) (get_x user_doc) (get_y user_doc) s))"
proof -
  let ?hits = "fst (es_search_sorted srt i (get_hobbies user_doc) (get_x user_doc) (get_y user_doc) s)"
  let ?g = "\<lambda>h. projr (User_of_source (fst h) (snd h))"
  have ok: "(case h of (match_id, source) \<Rightarrow> User_of_source match_id source) = Inr (?g h)"
    if "h \<in> set ?hits" for h
  proof -
    obtain k d where h: "h = (k, d)" by (cases h)
    from assms(3) that have "valid_source d"
      by (auto simp: h list_all_iff)
    then show ?thesis
      using User_of_source_valid [of d k] by (auto simp: h)
  qed
  have fe: "for_each (\<lambda>(match_id, source). User_of_source match_id source) ?hits
      = Inr (map ?g ?hits)"
    by (rule for_each_map) (rule ok)
  have "map Inr (map ?g ?hits) = map (\<lambda>(k, d). User_of_source k d) ?hits"
    using ok by simp
  moreover have "get_matches srt i s =
        (Inr (map ?g ?hits), s\<lparr>calls := calls s @ [Exists i, Get i,
            Search_sorted i (get_hobbies user_doc) (get_x user_doc) (get_y user_doc)]\<rparr>)"
    using assms(1,2) fe
    by (simp add: get_matches_def get_matches_try_def es_exists_def es_get_def
        es_search_sorted_def)
  ultimately show ?thesis by blast
qed

lemma sorted_map_fst:
  fixes xs :: "('a::linorder \<times> 'b::linorder) list"
  assumes "sorted xs"
  shows "sorted (map fst xs)"
  using assms by (induction xs) (auto simp: less_eq_prod_def)

text \<open>
  A list sorted by a key whose first component is \<open>c\<close> lists the values of \<open>c\<close> in
  ascending order, so two such lists with the same members list the same values.
\<close>

lemma sorted_first_component:
  fixes key :: "'h \<Rightarrow> int \<times> real"
  assumes "sorted (map key hs)" and "\<And>h. h \<in> set hs \<Longrightarrow> fst (key h) = c h"
    and "mset hs = mset cands"
  shows "map c hs = sort (map c cands)"
proof -
  have eq: "map fst (map key hs) = map c hs"
    using assms(2) by simp
  have "sorted (map fst (map key hs))"
    by (rule sorted_map_fst) (rule assms(1))
  then have "sorted (map c hs)"
    by (simp only: eq)
  moreover have "mset (map c hs) = mset (map c cands)"
    using assms(3) by (metis mset_map)
  ultimately show ?thesis
    by (rule properties_for_sort [symmetric, rotated])
qed

lemma sorted_same_keys:
  fixes key :: "'h \<Rightarrow> int \<times> real"
  assumes "sorted (map key hs)" and "mset hs = mset cands"
  shows "map key hs = sort (map key cands)"
proof -
  have "mset (map key hs) = mset (map key cands)"
    using assms(2) by (metis mset_map)
  then show ?thesis
    using assms(1) by (rule properties_for_sort [symmetric])
qed

text \<open>
  Where the engine measures for every candidate the distance \<open>r\<close> that a client-side
  formulation computes, the engine's key is the key of that formulation, and the two
  orders list the same sequence of keys.
\<close>

lemma same_distance_same_keys:
  fixes gd :: "real \<Rightarrow> real \<Rightarrow> doc \<Rightarrow> real"
  assumes hob: "distinct (get_hobbies user_doc)"
    and m: "mset native = mset cands"
    and s: "sorted (map (native_key gd (get_hobbies user_doc) (get_x user_doc) (get_y user_doc)) native)"
    and same: "\<forall>h \<in> set cands. gd (get_y user_doc) (get_x user_doc) (snd h) = r h"
  shows "map (scored_key user_doc r) native
      = map (scored_key user_doc r) (sort_key (scored_key user_doc r) cands)"
proof -
  have members: "set native = set cands"
    using m by (rule mset_eq_setD)
  have "native_key gd (get_hobbies user_doc) (get_x user_doc) (get_y user_doc) h
      = scored_key user_doc r h" if "h \<in> set native" for h
    using that same members
    by (simp add: native_key_def scored_key_def common_interests_def
        script_common_distinct [OF hob])
  then have "map (native_key gd (get_hobbies user_doc) (get_x user_doc) (get_y user_doc)) native
      = map (scored_key user_doc r) native"
    by (rule map_cong [OF refl])
  with s have "sorted (map (scored_key user_doc r) native)"
    by simp
  then have "map (scored_key user_doc r) native = sort (map (scored_key user_doc r) cands)"
    using m by (rule sorted_same_keys)
  moreover have "map (scored_key user_doc r) (sort_key (scored_key user_doc r) cands)
      = sort (map (scored_key user_doc r) cands)"
    by (rule sorted_same_keys) simp_all
  ultimately show ?thesis
    by simp
qed

text \<open>
  C7 (amended): for an existing single requester whose hobby list has no duplicates, in an
  index with at most 10000 candidates, all of which validate as users and have distances
  that the client-side formulations can compute, and for an engine whose sort meets its
  contract, the three formulations succeed and return the users of the same candidates:
  the store-native formulation in the order \<open>native\<close> of the engine, the haversine
  formulation in the order \<open>client2\<close> and the planar formulation in the order
  \<open>client3\<close>. The three orders are permutations of the candidates and list the same
  sequence of common-interest counts, in descending order. Each order is ascending in the
  key of its own formulation, whose second component is the distance as that formulation
  measures it; the order among candidates with equal counts can therefore differ. Where the
  engine measures for every candidate the same distance as a client-side formulation
  computes, its order lists the same sequence of keys (-common, distance) as the order of
  that formulation.
\<close>

theorem formulations_agree:
  fixes gd :: "real \<Rightarrow> real \<Rightarrow> doc \<Rightarrow> real"
  assumes doc: "map_of (docs s) i = Some user_doc"
    and single: "doc_status user_doc = Some ''single''"
    and hob: "distinct (get_hobbies user_doc)"
    and cands: "cands = filter (\<lambda>(k, d). doc_status d = Some ''single'' \<and> k \<noteq> i) (docs s)"
    and cap: "length cands \<le> 10000"
    and valid: "list_all (\<lambda>(k, d). valid_source d) cands"
    and store: "sorts_by gd srt (get_hobbies user_doc) (get_x user_doc) (get_y user_doc)
        cands"
    and hav: "\<forall>h \<in> set cands. haversine_distance fl user_doc h = Inr (r h)"
    and pla: "\<forall>h \<in> set cands. planar_distance fl user_doc h = Inr (r' h)"
    and native: "native = srt (get_hobbies user_doc) (get_x user_doc) (get_y user_doc)
        cands"
    and client2: "client2 = sort_key (scored_key user_doc r) cands"
    and client3: "client3 = sort_key (scored_key user_doc r') cands"
  shows "\<exists>us1 us2 us3.
       fst (get_matches srt i s) = Inr us1
     \<and> map Inr us1 = map (\<lambda>(k, d). User_of_source k d) native
     \<and> fst (get_matches_haversine fl i s) = Inr us2
     \<and> map Inr us2 = map (\<lambda>(k, d). User_of_source k d) client2
     \<and> fst (get_matches_planar fl i s) = Inr us3
     \<and> map Inr us3 = map (\<lambda>(k, d). User_of_source k d) client3
     \<and> mset native = mset cands
     \<and> mset client2 = mset cands
     \<and> mset client3 = mset cands
     \<and> map (common_interests user_doc) native = map (common_interests user_doc) client2
     \<and> map (common_interests user_doc) client2 = map (common_interests user_doc) client3
     \<and> sorted (map (\<lambda>h. - int (common_interests user_doc h)) native)
     \<and> sorted (map (\<lambda>h. - int (common_interests user_doc h)) client2)
     \<and> sorted (map (\<lambda>h. - int (common_interests user_doc h)) client3)
     \<and> sorted (map (native_key gd (get_hobbies user_doc) (get_x user_doc) (get_y user_doc)) native)
     \<and> sorted (map (scored_key user_doc r) client2)
     \<and> sorted (map (scored_key user_doc r') client3)
     \<and> ((\<forall>h \<in> set cands. gd (get_y user_doc) (get_x user_doc) (snd h) = r h) \<longrightarrow>
          map (scored_key user_doc r) native = map (scored_key user_doc r) client2)
     \<and> ((\<forall>h \<in> set cands. gd (get_y user_doc) (get_x user_doc) (snd h) = r' h) \<longrightarrow>
          map (scored_key user_doc r') native = map (scored_key user_doc r') client3)"
proof -
  let ?K = "native_key gd (get_hobbies user_doc) (get_x user_doc) (get_y user_doc)"
  let ?c = "\<lambda>h. - int (common_interests user_doc h)"
  have hits: "fst (es_search i s) = cands"
    using cap by (simp add: es_search_def cands)
  have m1: "mset native = mset cands" and s1: "sorted (map ?K native)"
    using store by (simp_all add: sorts_by_def native)
  have m2: "mset client2 = mset cands" and s2: "sorted (map (scored_key user_doc r) client2)"
    by (simp_all add: client2)
  have m3: "mset client3 = mset cands" and s3: "sorted (map (scored_key user_doc r') client3)"
    by (simp_all add: client3)
  have "length native = length cands"
    using m1 by (rule mset_eq_length)
  then have native_hits:
    "fst (es_search_sorted srt i (get_hobbies user_doc) (get_x user_doc) (get_y user_doc) s) = native"
    using cap by (simp add: es_search_sorted_def native cands)
  have "set native = set cands"
    using m1 by (rule mset_eq_setD)
  then have "list_all (\<lambda>(k, d). valid_source d) native"
    using valid by (simp add: list_all_iff)
  then have "list_all (\<lambda>(k, d). valid_source d)
      (fst (es_search_sorted srt i (get_hobbies user_doc) (get_x user_doc) (get_y user_doc) s))"
    by (simp only: native_hits)
  from get_matches_run [OF doc single this] obtain us1 where
    u1: "fst (get_matches srt i s) = Inr us1"
    "map Inr us1 = map (\<lambda>(k, d). User_of_source k d) native"
    by (auto simp: native_hits)
  have v: "list_all (\<lambda>(k, d). valid_source d) (fst (es_search i s))"
    using valid by (simp only: hits)
  have "\<exists>us. get_matches_haversine fl i s =
        (Inr us, s\<lparr>calls := calls s @ [Exists i, Get i, Search i]\<rparr>)
     \<and> map Inr us = map (\<lambda>(k, d). User_of_source k d)
                       (sort_key (scored_key user_doc r) (fst (es_search i s)))"
    using hav by (intro get_matches_haversine_run doc single v) (simp add: hits)
  then obtain us2 where
    u2: "fst (get_matches_haversine fl i s) = Inr us2"
    "map Inr us2 = map (\<lambda>(k, d). User_of_source k d) client2"
    by (auto simp: hits client2)
  have "\<exists>us. get_matches_planar fl i s =
        (Inr us, s\<lparr>calls := calls s @ [Exists i, Get i, Search i]\<rparr>)
     \<and> map Inr us = map (\<lambda>(k, d). User_of_source k d)
                       (sort_key (scored_key user_doc r') (fst (es_search i s)))"
    using pla by (intro get_matches_planar_run doc single v) (simp add: hits)
  then obtain us3 where
    u3: "fst (get_matches_planar fl i s) = Inr us3"
    "map Inr us3 = map (\<lambda>(k, d). User_of_source k d) client3"
    by (auto simp: hits client3)
  have c1: "map ?c native = sort (map ?c cands)"
    by (rule sorted_first_component [OF s1 _ m1])
       (simp add: native_key_def common_interests_def script_common_distinct [OF hob])
  have c2: "map ?c client2 = sort (map ?c cands)"
    by (rule sorted_first_component [OF s2 _ m2]) (simp add: scored_key_def)
  have c3: "map ?c client3 = sort (map ?c cands)"
    by (rule sorted_first_component [OF s3 _ m3]) (simp add: scored_key_def)
  have counts: "map (common_interests user_doc) hs = map (\<lambda>z. nat (- z)) (map ?c hs)"
    for hs :: "(int \<times> doc) list"
    by simp
  have e12: "map (common_interests user_doc) native = map (common_interests user_doc) client2"
    by (simp only: counts [of native] counts [of client2] c1 c2)
  have e23: "map (common_interests user_doc) client2 = map (common_interests user_doc) client3"
    by (simp only: counts [of client2] counts [of client3] c2 c3)
  have d1: "sorted (map ?c native)"
    by (simp only: c1) simp
  have d2: "sorted (map ?c client2)"
    by (simp only: c2) simp
  have d3: "sorted (map ?c client3)"
    by (simp only: c3) simp
  have k2: "map (scored_key user_doc r) native = map (scored_key user_doc r) client2"
    if "\<forall>h \<in> set cands. gd (get_y user_doc) (get_x user_doc) (snd h) = r h"
    unfolding client2 by (rule same_distance_same_keys [OF hob m1 s1 that])
  have k3: "map (scored_key user_doc r') native = map (scored_key user_doc r') client3"
    if "\<forall>h \<in> set cands. gd (get_y user_doc) (get_x user_doc) (snd h) = r' h"
    unfolding client3 by (rule same_distance_same_keys [OF hob m1 s1 that])
  show ?thesis
    using u1 u2 u3 m1 m2 m3 e12 e23 d1 d2 d3 s1 s2 s3 k2 k3 by blast
qed

section \<open>The formulations compared: examples\<close>

lemma sorts_by_stable_store:
  "sorts_by geo_distance stable_store user_hobbies user_x user_y cands"
  by (simp add: sorts_by_def stable_store_def)

lemma index_match_native_run:
  "get_matches stable_store 1 index_match =
     (Inr [\<lparr>user_id = Some 2, user_name = ''Xena'', user_gender = female, user_status = single,
            user_following = [], user_location = \<lparr>lon = 0, lat = 1\<rparr>\<rparr>,
           \<lparr>user_id = Some 3, user_name = ''Yara'', user_gender = female, user_status = single,
            user_following = [], user_location = \<lparr>lon = 0, lat = 1 / 100\<rparr>\<rparr>],
      index_match\<lparr>calls := [Exists 1, Get 1, Search_sorted 1 [''reading'', ''hiking''] 0 0]\<rparr>)"
  by (simp add: get_matches_def get_matches_try_def es_exists_def es_get_def
      es_search_sorted_def stable_store_def native_key_def index_match_def profile_def
      script_common_def User_of_source_def mk_User_def Gender_of_def Status_of_def
      source_location_def get_hobbies_def get_x_def get_y_def)

text \<open>
  The example of the specification under the three formulations, with the example engine
  and the arithmetic that does not round: each returns X, then Y.
\<close>

theorem formulations_agree_witness:
  "fst (get_matches stable_store 1 index_match) =
     Inr [\<lparr>user_id = Some 2, user_name = ''Xena'', user_gender = female, user_status = single,
           user_following = [], user_location = \<lparr>lon = 0, lat = 1\<rparr>\<rparr>,
          \<lparr>user_id = Some 3, user_name = ''Yara'', user_gender = female, user_status = single,
           user_following = [], user_location = \<lparr>lon = 0, lat = 1 / 100\<rparr>\<rparr>]
   \<and> fst (get_matches_haversine exact 1 index_match) = fst (get_matches stable_store 1 index_match)
   \<and> fst (get_matches_planar exact 1 index_match) = fst (get_matches stable_store 1 index_match)
   \<and> list_all (\<lambda>h. Inr (geo_distance 0 0 (snd h))
          = haversine_distance exact
              (profile ''John'' ''male'' ''single'' [] 0 0 [''reading'', ''hiking'']) h)
        (fst (es_search 1 index_match))"
proof -
  let ?d = "profile ''John'' ''male'' ''single'' [] 0 0 [''reading'', ''hiking'']"
  let ?cands = "filter (\<lambda>(k, d). doc_status d = Some ''single'' \<and> k \<noteq> 1) (docs index_match)"
  let ?r = "\<lambda>h. greatCircle \<lparr>lon = get_x ?d, lat = get_y ?d\<rparr>
      \<lparr>lon = get_x (snd h), lat = get_y (snd h)\<rparr>"
  let ?r' = "\<lambda>h. sqrt ((get_x ?d - get_x (snd h))\<^sup>2 + (get_y ?d - get_y (snd h))\<^sup>2)"
  have h1: "map_of (docs index_match) 1 = Some ?d"
    by (simp add: index_match_def)
  have h2: "doc_status ?d = Some ''single''"
    by (simp add: profile_def)
  have h3: "distinct (get_hobbies ?d)"
    by (simp add: profile_def get_hobbies_def)
  have h4: "length ?cands \<le> 10000"
    by (simp add: index_match_def profile_def)
  have h5: "list_all (\<lambda>(k, d). valid_source d) ?cands"
    by (simp add: index_match_def profile_def valid_source_def Gender_of_def Status_of_def)
  have h6: "sorts_by geo_distance stable_store (get_hobbies ?d) (get_x ?d) (get_y ?d) ?cands"
    by (simp add: sorts_by_def stable_store_def)
  have h7: "\<forall>h \<in> set ?cands. haversine_distance exact ?d h = Inr (?r h)"
    by (simp add: haversine_distance_exact)
  have h8: "\<forall>h \<in> set ?cands. planar_distance exact ?d h = Inr (?r' h)"
    by (simp add: planar_distance_exact)
  from formulations_agree [OF h1 h2 h3 refl h4 h5 h6 h7 h8 refl refl refl]
  have "\<exists>us1 us2 us3.
       fst (get_matches stable_store 1 index_match) = Inr us1
     \<and> fst (get_matches_haversine exact 1 index_match) = Inr us2
     \<and> fst (get_matches_planar exact 1 index_match) = Inr us3"
    by blast
  moreover have "list_all (\<lambda>h. Inr (geo_distance 0 0 (snd h)) = haversine_distance exact ?d h)
      (fst (es_search 1 index_match))"
    by (simp add: haversine_distance_exact geo_distance_def geo_point_def es_search_def
        index_match_def profile_def get_x_def get_y_def)
  ultimately show ?thesis
    using index_match_native_run index_match_run index_match_planar_run by simp
qed

lemma index_polar_haversine_run:
  "fst (get_matches_haversine exact 1 index_polar) =
     Inr [\<lparr>user_id = Some 2, user_name = ''Bob'', user_gender = male, user_status = single,
           user_following = [], user_location = \<lparr>lon = 180, lat = 90\<rparr>\<rparr>,
          \<lparr>user_id = Some 3, user_name = ''Carl'', user_gender = male, user_status = single,
           user_following = [], user_location = \<lparr>lon = 0, lat = 0\<rparr>\<rparr>]"
  using greatCircle_pole_equator
  by (simp add: get_matches_haversine_def get_matches_haversine_try_def es_exists_def
      es_get_def es_search_def index_polar_def profile_def score_haversine_def
      haversine_distance_exact User_of_source_def mk_User_def Gender_of_def Status_of_def
      source_location_def get_hobbies_def get_x_def get_y_def sort_key_of_def
      greatCircle_pole_pole less_imp_le)

lemma index_dup_haversine_run:
  "map user_id (projr (fst (get_matches_haversine exact 1 index_dup))) = [Some 3, Some 2]"
  by (simp add: get_matches_haversine_def get_matches_haversine_try_def es_exists_def
      es_get_def es_search_def index_dup_def profile_def score_haversine_def
      haversine_distance_exact User_of_source_def mk_User_def Gender_of_def Status_of_def
      source_location_def get_hobbies_def get_x_def get_y_def sort_key_of_def)

lemma index_dup_planar_run:
  "map user_id (projr (fst (get_matches_planar exact 1 index_dup))) = [Some 3, Some 2]"
  by (simp add: get_matches_planar_def get_matches_planar_try_def es_exists_def
      es_get_def es_search_def index_dup_def profile_def score_planar_def
      planar_distance_exact User_of_source_def mk_User_def Gender_of_def Status_of_def
      source_location_def get_hobbies_def get_x_def get_y_def sort_key_of_def)

lemma index_dup_native_run:
  "map user_id (projr (fst (get_matches stable_store 1 index_dup))) = [Some 2, Some 3]"
  by (simp add: get_matches_def get_matches_try_def es_exists_def es_get_def
      es_search_sorted_def stable_store_def native_key_def index_dup_def profile_def
      script_common_def User_of_source_def mk_User_def Gender_of_def Status_of_def
      source_location_def get_hobbies_def get_x_def get_y_def)

text \<open>
  C7 as stated fails, in two ways. The two client-side formulations differ from each
  other: for the requester at the pole the haversine formulation returns Bob, then Carl,
  and the planar formulation returns Carl, then Bob, so no store-native order equals both.
  And for a requester whose hobby list repeats an entry, the sort script counts every
  occurrence where the client-side formulations intersect sets: the script gives Xena 3
  and Yara 2, so that a sort by descending script value puts Xena first, as the example
  engine does, and both client-side formulations count 1 and 2 and return Yara first.
\<close>

theorem formulations_differ_counterexample:
  "fst (get_matches_haversine exact 1 index_polar) =
     Inr [\<lparr>user_id = Some 2, user_name = ''Bob'', user_gender = male, user_status = single,
           user_following = [], user_location = \<lparr>lon = 180, lat = 90\<rparr>\<rparr>,
          \<lparr>user_id = Some 3, user_name = ''Carl'', user_gender = male, user_status = single,
           user_following = [], user_location = \<lparr>lon = 0, lat = 0\<rparr>\<rparr>]
   \<and> fst (get_matches_planar exact 1 index_polar) =
     Inr [\<lparr>user_id = Some 3, user_name = ''Carl'', user_gender = male, user_status = single,
           user_following = [], user_location = \<lparr>lon = 0, lat = 0\<rparr>\<rparr>,
          \<lparr>user_id = Some 2, user_name = ''Bob'', user_gender = male, user_status = single,
           user_following = [], user_location = \<lparr>lon = 180, lat = 90\<rparr>\<rparr>]
   \<and> fst (get_matches_planar exact 1 index_polar) \<noteq> fst (get_matches_haversine exact 1 index_polar)
   \<and> script_common [''a'', ''a'', ''a'', ''b'', ''c'']
        (profile ''Xena'' ''female'' ''single'' [] 0 1 [''a'']) = 3
   \<and> script_common [''a'', ''a'', ''a'', ''b'', ''c'']
        (profile ''Yara'' ''female'' ''single'' [] 0 1 [''b'', ''c'']) = 2
   \<and> map user_id (projr (fst (get_matches stable_store 1 index_dup))) = [Some 2, Some 3]
   \<and> map user_id (projr (fst (get_matches_haversine exact 1 index_dup))) = [Some 3, Some 2]
   \<and> map user_id (projr (fst (get_matches_planar exact 1 index_dup))) = [Some 3, Some 2]"
  by (simp add: index_polar_haversine_run index_polar_run index_dup_native_run
      index_dup_haversine_run index_dup_planar_run script_common_def profile_def get_hobbies_def)


end
